theory Spec2Isabelle
  imports Main "HOL-Library.Sublist"
begin

section \<open>What topic.h takes from outside\<close>

text \<open>
  \<^verbatim>\<open>topic.h\<close> includes \<^verbatim>\<open>commons.h\<close> and \<^verbatim>\<open>message.h\<close> and uses from them
  \<^item> \<^verbatim>\<open>Commons::Tokenize(line, Commons::CSVDelimiter)\<close>,
  \<^item> the string constants \<^verbatim>\<open>Commons::CSVFieldsPrefix\<close> and \<^verbatim>\<open>Commons::FaultTopicPrefix\<close>,
  \<^item> \<^verbatim>\<open>Message::TokensToMessage(tokens, labels, l_seq, l_stamp, l_frid, l_fields)\<close>, which
    returns the message and writes the four widths through its reference parameters
    (the caller initialises them to 0, 0, 0 and the empty vector),
  \<^item> \<^verbatim>\<open>Message::ToString(len_seqid, len_stamp, len_frameid, len_fields, has_header, sep)\<close>,
  \<^item> \<^verbatim>\<open>Message::DateTime.ToString()\<close>.
  Every function of the topic takes them as one parameter, a record of that interface;
  \<open>'m\<close> is the type of messages.

  The record has one more field, \<open>overflowed_sum\<close>. \<^verbatim>\<open>Print\<close> adds two \<^verbatim>\<open>int\<close>s that
  its caller chooses, and the overflow of a signed addition is undefined behaviour in C++:
  the language fixes no result, and builds of the same source differ (one wraps around,
  another compares as if the sum were exact). The field is the value a build leaves for
  a sum that overflows; nothing is assumed about it.
\<close>

record 'm externals =
  Tokenize :: "string \<Rightarrow> string list"
  CSVFieldsPrefix :: string
  FaultTopicPrefix :: string
  Message_TokensToMessage :: "string list \<Rightarrow> string list \<Rightarrow> 'm \<times> int \<times> int \<times> int \<times> int list"
  Message_ToString :: "'m \<Rightarrow> int \<Rightarrow> int \<Rightarrow> int \<Rightarrow> int list \<Rightarrow> bool \<Rightarrow> string \<Rightarrow> string"
  DateTime_ToString :: "'m \<Rightarrow> string"
  overflowed_sum :: "int \<Rightarrow> int \<Rightarrow> int"

section \<open>The class Topic\<close>

text \<open>The data members of the class, public and private, in the order of their declaration.\<close>

record 'm Topic =
  Name :: string
  FileName :: string
  FieldLabels :: "string list"
  Messages :: "'m list"
  is_initialized :: bool
  is_fault_topic :: bool
  len_seqid :: int
  len_stamp :: int
  len_frameid :: int
  len_fields :: "int list"
  orig_field_labels :: "string list"
  has_header :: bool

definition hdr_ind :: string where "hdr_ind = ''Index''"
definition hdr_datetime :: string where "hdr_datetime = ''Date/Time Stamp''"
definition hdr_seq :: string where "hdr_seq = ''SeqID''"
definition hdr_stamp :: string where "hdr_stamp = ''Time Stamp''"
definition hdr_frid :: string where "hdr_frid = ''Frame''"

text \<open>A default-constructed topic: the member initialisers of the class.\<close>

definition new_Topic :: "'m Topic" where
  "new_Topic = \<lparr> Name = ''N/A'', FileName = [], FieldLabels = [], Messages = [],
     is_initialized = False, is_fault_topic = False,
     len_seqid = 0, len_stamp = 0, len_frameid = 0, len_fields = [],
     orig_field_labels = [], has_header = False \<rparr>"

definition Clear :: "'m Topic \<Rightarrow> 'm Topic" where
  "Clear t = t\<lparr> Name := [], FileName := [], FieldLabels := [], Messages := [],
     is_initialized := False, is_fault_topic := False,
     len_seqid := 0, len_stamp := 0, len_frameid := 0, len_fields := [],
     orig_field_labels := [], has_header := False \<rparr>"

definition IsInitialized :: "'m Topic \<Rightarrow> bool" where
  "IsInitialized t = is_initialized t"

definition IsFaultTopic :: "'m Topic \<Rightarrow> bool" where
  "IsFaultTopic t = is_fault_topic t"

definition HasHeaderField :: "'m Topic \<Rightarrow> bool" where
  "HasHeaderField t = has_header t"

subsection \<open>ProcessHeader\<close>

text \<open>
  The first loop of \<^verbatim>\<open>ProcessHeader\<close> (lines 307 to 326), with \<open>i\<close> the loop counter.
  \<^verbatim>\<open>s.substr(0, n)\<close> is \<open>take n s\<close> (it stops at the end of a shorter string) and
  \<^verbatim>\<open>s.substr(n)\<close> is \<open>drop n s\<close>; the latter is only reached when the first
  \<open>n\<close> characters of \<open>s\<close> are the prefix, so \<open>n\<close> is within the string.
\<close>

function ProcessHeader_labels :: "string \<Rightarrow> nat \<Rightarrow> 'm Topic \<Rightarrow> 'm Topic" where
  "ProcessHeader_labels pfx i t =
     (if i < length (orig_field_labels t) then
        (if orig_field_labels t ! i = ''%time'' then ProcessHeader_labels pfx (i + 1) t
         else if orig_field_labels t ! i = pfx @ ''header.seq''
               \<or> orig_field_labels t ! i = pfx @ ''header.stamp''
               \<or> orig_field_labels t ! i = pfx @ ''header.frame_id''
         then ProcessHeader_labels pfx (i + 1) (t\<lparr>has_header := True\<rparr>)
         else if take (length pfx) (orig_field_labels t ! i) = pfx
         then ProcessHeader_labels pfx (i + 1)
                (t\<lparr>FieldLabels := FieldLabels t @ [drop (length pfx) (orig_field_labels t ! i)]\<rparr>)
         else ProcessHeader_labels pfx (i + 1)
                (t\<lparr>FieldLabels := FieldLabels t @ [orig_field_labels t ! i]\<rparr>))
      else t)"
  by pat_completeness auto
termination
  by (relation "measure (\<lambda>(pfx, i, t). length (orig_field_labels t) - i)") auto

declare ProcessHeader_labels.simps [simp del]

text \<open>
  The second loop (lines 332 to 336). The \<^verbatim>\<open>break\<close> leaves the loop at the first label
  that has no tracked width; below it \<open>i\<close> is an index of \<open>len_fields\<close>.
\<close>

function ProcessHeader_widths :: "nat \<Rightarrow> 'm Topic \<Rightarrow> 'm Topic" where
  "ProcessHeader_widths i t =
     (if i < length (FieldLabels t) then
        (if length (len_fields t) < i + 1 then t
         else ProcessHeader_widths (i + 1)
                (t\<lparr>len_fields := (len_fields t)
                     [i := max (len_fields t ! i) (int (length (FieldLabels t ! i)))]\<rparr>))
      else t)"
  by pat_completeness auto
termination
  by (relation "measure (\<lambda>(i, t). length (FieldLabels t) - i)") auto

declare ProcessHeader_widths.simps [simp del]

definition ProcessHeader :: "'m externals \<Rightarrow> 'm Topic \<Rightarrow> 'm Topic" where
  "ProcessHeader ext t =
     (let t1 = ProcessHeader_labels (CSVFieldsPrefix ext) 0 t;
          t2 = t1\<lparr>len_seqid := max (len_seqid t1) (int (length hdr_seq))\<rparr>;
          t3 = t2\<lparr>len_stamp := max (len_stamp t2) (int (length hdr_stamp))\<rparr>;
          t4 = t3\<lparr>len_frameid := max (len_frameid t3) (int (length hdr_frid))\<rparr>
      in ProcessHeader_widths 0 t4)"

subsection \<open>TokensToMessage\<close>

text \<open>
  The loop of \<^verbatim>\<open>Topic::TokensToMessage\<close> (lines 291 to 297) that folds the widths of one
  row into \<open>len_fields\<close>: a new index extends the vector, an old one takes the maximum.
  The counter starts at 0 and the vector grows by one whenever the counter reaches its
  size, so the counter never passes the size and the assignment in the else branch is
  always in range (lemma \<open>TokensToMessage_fields_length\<close> below).
\<close>

function TokensToMessage_fields :: "int list \<Rightarrow> nat \<Rightarrow> 'm Topic \<Rightarrow> 'm Topic" where
  "TokensToMessage_fields l_fields i t =
     (if i < length l_fields then
        (if i = length (len_fields t)
         then TokensToMessage_fields l_fields (i + 1)
                (t\<lparr>len_fields := len_fields t @ [l_fields ! i]\<rparr>)
         else TokensToMessage_fields l_fields (i + 1)
                (t\<lparr>len_fields := (len_fields t)[i := max (len_fields t ! i) (l_fields ! i)]\<rparr>))
      else t)"
  by pat_completeness auto
termination
  by (relation "measure (\<lambda>(l_fields, i, t). length l_fields - i)") auto

declare TokensToMessage_fields.simps [simp del]

definition TokensToMessage :: "'m externals \<Rightarrow> string list \<Rightarrow> 'm Topic \<Rightarrow> 'm \<times> 'm Topic" where
  "TokensToMessage ext tokens t =
     (case Message_TokensToMessage ext tokens (orig_field_labels t) of
        (msg, l_seq, l_stamp, l_frid, l_fields) \<Rightarrow>
          (let t1 = t\<lparr>len_seqid := max (len_seqid t) l_seq\<rparr>;
               t2 = t1\<lparr>len_stamp := max (len_stamp t1) l_stamp\<rparr>;
               t3 = t2\<lparr>len_frameid := max (len_frameid t2) l_frid\<rparr>
           in (msg, TokensToMessage_fields l_fields 0 t3)))"

subsection \<open>ReadFromFile\<close>

text \<open>
  Integers written to a stream appear in decimal. \<^verbatim>\<open>line_number\<close> is an \<^verbatim>\<open>int\<close> that
  counts the data rows read; it is modelled as an unbounded integer (a file of more than
  \<open>2^31 - 1\<close> rows is out of reach).
\<close>

fun show_nat :: "nat \<Rightarrow> string" where
  "show_nat n =
     (if n < 10 then [''0123456789'' ! n]
      else show_nat (n div 10) @ [''0123456789'' ! (n mod 10)])"

declare show_nat.simps [simp del]

definition show_int :: "int \<Rightarrow> string" where
  "show_int i = (if i < 0 then CHR ''-'' # show_nat (nat (- i)) else show_nat (nat i))"

text \<open>The three lines that \<^verbatim>\<open>ReadFromFile\<close> writes to \<^verbatim>\<open>std::cerr\<close>.\<close>

definition open_error :: "string \<Rightarrow> string" where
  "open_error filename = ''Failed to open '' @ [CHR 0x27] @ filename @ [CHR 0x27] @ '' file.''"

definition header_error :: "string \<Rightarrow> string" where
  "header_error filename =
     ''Error reading the header from '' @ [CHR 0x27] @ filename @ [CHR 0x27] @ '' file.''"

definition row_error :: "int \<Rightarrow> string \<Rightarrow> string" where
  "row_error line_number filename =
     ''Error converting line #'' @ show_int line_number @ '' of '' @ [CHR 0x27] @ filename
       @ [CHR 0x27] @ ''. Skipping this topic!''"

text \<open>The padding loop of lines 144 and 145.\<close>

function pad_tokens :: "string list \<Rightarrow> nat \<Rightarrow> string list" where
  "pad_tokens tokens n = (if length tokens < n then pad_tokens (tokens @ [[]]) n else tokens)"
  by pat_completeness auto
termination
  by (relation "measure (\<lambda>(tokens, n). n - length tokens)") auto

declare pad_tokens.simps [simp del]

text \<open>
  The loop over the data rows (lines 135 to 156). The lines still unread are the list;
  the function returns the topic and what was written to \<^verbatim>\<open>std::cerr\<close>. The
  \<^verbatim>\<open>break\<close> of line 151 returns without looking at the rest of the lines.
\<close>

fun ReadFromFile_rows ::
  "'m externals \<Rightarrow> string \<Rightarrow> string list \<Rightarrow> int \<Rightarrow> 'm Topic \<Rightarrow> 'm Topic \<times> string list" where
  "ReadFromFile_rows ext filename [] line_number t = (t, [])"
| "ReadFromFile_rows ext filename (line # rest) line_number t =
     (if length (pad_tokens (Tokenize ext line) (length (orig_field_labels t)))
           > length (orig_field_labels t)
      then (t, [row_error (line_number + 1) filename])
      else (case TokensToMessage ext
                   (pad_tokens (Tokenize ext line) (length (orig_field_labels t))) t of
              (msg, t') \<Rightarrow>
                ReadFromFile_rows ext filename rest (line_number + 1)
                  (t'\<lparr>Messages := Messages t' @ [msg]\<rparr>)))"

text \<open>
  Lines 161 to 166 of \<^verbatim>\<open>ReadFromFile\<close>: the fault flag is assigned only when the name
  is at least as long as the prefix, and keeps its value otherwise.
\<close>

definition classify_fault :: "'m externals \<Rightarrow> 'm Topic \<Rightarrow> 'm Topic" where
  "classify_fault ext t =
     (if length (Name t) \<ge> length (FaultTopicPrefix ext)
      then t\<lparr>is_fault_topic :=
               (take (length (FaultTopicPrefix ext)) (Name t) = FaultTopicPrefix ext)\<rparr>
      else t)"

text \<open>
  The file system is a partial map from file names to the lines of the file: a name
  outside its domain cannot be opened, and \<^verbatim>\<open>std::getline\<close> delivers the lines in
  order. \<^verbatim>\<open>ReadFromFile\<close> returns its status, the topic and the lines written to
  \<^verbatim>\<open>std::cerr\<close>.
\<close>

definition ReadFromFile ::
  "'m externals \<Rightarrow> (string \<rightharpoonup> string list) \<Rightarrow> string \<Rightarrow> 'm Topic
     \<Rightarrow> bool \<times> 'm Topic \<times> string list" where
  "ReadFromFile ext fs filename t =
     (let topic_name = Name t;
          t0 = (Clear t)\<lparr>FileName := filename, Name := topic_name\<rparr>
      in case fs filename of
           None \<Rightarrow> (False, t0, [open_error filename])
         | Some [] \<Rightarrow> (False, t0, [header_error filename])
         | Some (line # rest) \<Rightarrow>
             (case ReadFromFile_rows ext filename rest 0
                     (t0\<lparr>orig_field_labels := Tokenize ext line\<rparr>) of
                (t1, errs) \<Rightarrow>
                  (let t2 = ProcessHeader ext t1;
                       t3 = classify_fault ext t2;
                       t4 = t3\<lparr>is_initialized := True\<rparr>
                   in (IsInitialized t4, t4, errs))))"

subsection \<open>PrintHeader and Print\<close>

text \<open>
  \<^verbatim>\<open>std::cout\<close> is modelled by the list of the lines written to it, each ended by
  \<^verbatim>\<open>std::endl\<close>. \<^verbatim>\<open>std::setw(w)\<close> before a string pads it with spaces on the left up to
  \<open>w\<close> characters and never shortens it.

  \<^verbatim>\<open>len_fields[i]\<close> with \<open>i\<close> outside the vector is undefined behaviour in C++; the
  model makes it the error \<open>OutOfRange\<close>. \<^verbatim>\<open>std::string(n, '-')\<close> with a negative
  \<open>n\<close> throws; the model makes it the error \<open>LengthError\<close>.

  The widths and lengths added up in \<^verbatim>\<open>PrintHeader\<close> are modelled as unbounded integers
  (a header line of \<open>2^31\<close> characters is out of reach).
\<close>

datatype error = OutOfRange | LengthError

definition setw :: "int \<Rightarrow> string \<Rightarrow> string" where
  "setw w s = replicate (nat w - length s) CHR '' '' @ s"

text \<open>The loop of lines 218 and 219.\<close>

function PrintHeader_total :: "nat \<Rightarrow> 'm Topic \<Rightarrow> int \<Rightarrow> error + int" where
  "PrintHeader_total i t total_len =
     (if i < length (FieldLabels t) then
        (if i < length (len_fields t)
         then PrintHeader_total (i + 1) t (total_len + len_fields t ! i)
         else Inl OutOfRange)
      else Inr total_len)"
  by pat_completeness auto
termination
  by (relation "measure (\<lambda>(i, t, total_len). length (FieldLabels t) - i)") auto

declare PrintHeader_total.simps [simp del]

text \<open>The loop of lines 229 and 230; \<open>out\<close> is the part of the line written so far.\<close>

function PrintHeader_fields :: "string \<Rightarrow> nat \<Rightarrow> 'm Topic \<Rightarrow> string \<Rightarrow> error + string" where
  "PrintHeader_fields sep i t out =
     (if i < length (FieldLabels t) then
        (if i < length (len_fields t)
         then PrintHeader_fields sep (i + 1) t
                (out @ sep @ setw (len_fields t ! i) (FieldLabels t ! i))
         else Inl OutOfRange)
      else Inr out)"
  by pat_completeness auto
termination
  by (relation "measure (\<lambda>(sep, i, t, out). length (FieldLabels t) - i)") auto

declare PrintHeader_fields.simps [simp del]

text \<open>\<^verbatim>\<open>PrintHeader\<close> returns its result and the lines it wrote.\<close>

definition PrintHeader :: "'m externals \<Rightarrow> 'm Topic \<Rightarrow> string \<Rightarrow> error + (int \<times> string list)" where
  "PrintHeader ext t sep =
     (if length (Messages t) = 0 then Inr (0, [])
      else
        (let len_datetime = int (length (DateTime_ToString ext (Messages t ! 0)))
         in case PrintHeader_total 0 t
                   (int (length hdr_ind) + len_datetime + len_seqid t + len_stamp t
                      + len_frameid t) of
              Inl e \<Rightarrow> Inl e
            | Inr fields_len \<Rightarrow>
                (let total_len = fields_len + (6 + int (length (FieldLabels t))) * int (length sep);
                     out1 = sep @ hdr_ind @ sep @ setw len_datetime hdr_datetime;
                     out2 = (if has_header t
                             then out1 @ sep @ setw (len_seqid t) hdr_seq
                                       @ sep @ setw (len_stamp t) hdr_stamp
                                       @ sep @ setw (len_frameid t) hdr_frid
                             else out1)
                 in case PrintHeader_fields sep 0 t out2 of
                      Inl e \<Rightarrow> Inl e
                    | Inr out3 \<Rightarrow> Inr (total_len, [out3 @ sep]))))"

text \<open>
  \<^verbatim>\<open>n_start\<close> and \<^verbatim>\<open>n_messages\<close> are 32-bit \<^verbatim>\<open>int\<close>s that the caller chooses, and
  \<^verbatim>\<open>n_start + n_messages\<close> (line 194) can exceed the range of the type. The sum of two
  \<^verbatim>\<open>int\<close>s is their sum when that is in the range; when it is not, the behaviour is
  undefined and the model takes whatever the parameter \<open>overflowed_sum\<close> gives. An integer
  outside the range is not a value of the type, so no call passes one; there the model
  keeps the exact sum.
\<close>

definition int_range :: "int \<Rightarrow> bool" where
  "int_range x = (- (2 ^ 31) \<le> x \<and> x < 2 ^ 31)"

definition signed_sum :: "'m externals \<Rightarrow> int \<Rightarrow> int \<Rightarrow> int" where
  "signed_sum ext a b =
     (if int_range a \<and> int_range b \<and> \<not> int_range (a + b) then overflowed_sum ext a b
      else a + b)"

text \<open>The line written for the message of index \<open>i\<close> (lines 196 to 198).\<close>

definition Print_line :: "'m externals \<Rightarrow> 'm Topic \<Rightarrow> string \<Rightarrow> int \<Rightarrow> string" where
  "Print_line ext t sep i =
     sep @ setw (int (length hdr_ind)) (show_int i) @ sep
       @ Message_ToString ext (Messages t ! nat i) (len_seqid t) (len_stamp t) (len_frameid t)
           (len_fields t) (has_header t) sep
       @ sep"

text \<open>
  The loop of lines 194 to 200, with \<open>bound\<close> the value of \<^verbatim>\<open>n_start + n_messages\<close>,
  which the loop condition computes anew in each round from two variables that the loop
  does not change.
  \<^verbatim>\<open>Print\<close> enters it with \<open>0 \<le> i\<close>, and the loop condition keeps \<open>i\<close> below the
  number of messages, so \<^verbatim>\<open>Messages[i]\<close> is in range.
\<close>

function Print_loop ::
  "'m externals \<Rightarrow> 'm Topic \<Rightarrow> string \<Rightarrow> int \<Rightarrow> int \<Rightarrow> int \<Rightarrow> string list \<Rightarrow> int \<times> string list" where
  "Print_loop ext t sep bound i printed_messages out =
     (if i < bound \<and> i < int (length (Messages t))
      then Print_loop ext t sep bound (i + 1) (printed_messages + 1)
             (out @ [Print_line ext t sep i])
      else (printed_messages, out))"
  by pat_completeness auto
termination
  by (relation "measure (\<lambda>(ext, t, sep, bound, i, printed_messages, out).
                  nat (int (length (Messages t)) - i))") auto

declare Print_loop.simps [simp del]

text \<open>\<^verbatim>\<open>Print\<close> returns its result and the lines it wrote.\<close>

definition Print ::
  "'m externals \<Rightarrow> 'm Topic \<Rightarrow> int \<Rightarrow> int \<Rightarrow> string \<Rightarrow> error + (int \<times> string list)" where
  "Print ext t n_start n_messages sep =
     (if n_start < 0 then Inr (0, [])
      else
        (let n = (if n_messages < 0 then int (length (Messages t)) else n_messages)
         in case PrintHeader ext t sep of
              Inl e \<Rightarrow> Inl e
            | Inr (header_length, out) \<Rightarrow>
                if header_length < 0 then Inl LengthError
                else Inr (Print_loop ext t sep (signed_sum ext n_start n) n_start 0
                            (out @ [replicate (nat header_length) CHR ''-'']))))"

section \<open>An instance of the interface, for concrete inputs\<close>

text \<open>
  The properties below hold for every value of the interface. Concrete inputs need one
  value of it; the files \<^verbatim>\<open>commons.h\<close> and \<^verbatim>\<open>message.h\<close> are not among the sources, so
  this value follows the specification.
\<close>

text \<open>
  Modelled from the spec: \<^verbatim>\<open>Commons::Tokenize\<close> with \<^verbatim>\<open>Commons::CSVDelimiter\<close> (file
  \<^verbatim>\<open>commons.h\<close>), which ``splits a line into an ordered sequence of strings given a
  delimiter'', with ``no quoting/escaping support''.
\<close>

fun split_on :: "char \<Rightarrow> string \<Rightarrow> string list" where
  "split_on d [] = [[]]"
| "split_on d (c # cs) =
     (if c = d then [] # split_on d cs
      else (case split_on d cs of [] \<Rightarrow> [[c]] | tok # toks \<Rightarrow> (c # tok) # toks))"

text \<open>
  Modelled from the spec: the type \<^verbatim>\<open>Message\<close> (file \<^verbatim>\<open>message.h\<close>), ``one parsed data
  row'': the timestamp, the header triple and the values of the generic fields, here all
  kept as the text of their tokens.
\<close>

record example_message =
  msg_time :: string
  msg_seq :: string
  msg_stamp :: string
  msg_frame :: string
  msg_values :: "string list"

text \<open>
  Modelled from the spec: \<^verbatim>\<open>Message::TokensToMessage\<close> (file \<^verbatim>\<open>message.h\<close>), which
  ``given one row's tokens and the original column labels, produces a typed record plus
  the minimum display widths that row would require for its
  sequence-id/timestamp/frame-id/generic fields''. It walks the tokens with their labels
  and reports the length of each token, one width per generic field.
\<close>

fun example_build ::
  "string \<Rightarrow> string list \<Rightarrow> string list
     \<Rightarrow> example_message \<times> int \<times> int \<times> int \<times> int list
     \<Rightarrow> example_message \<times> int \<times> int \<times> int \<times> int list" where
  "example_build pfx (tok # toks) (l # ls) (m, l_seq, l_stamp, l_frid, l_fields) =
     (if l = ''%time''
      then example_build pfx toks ls (m\<lparr>msg_time := tok\<rparr>, l_seq, l_stamp, l_frid, l_fields)
      else if l = pfx @ ''header.seq''
      then example_build pfx toks ls
             (m\<lparr>msg_seq := tok\<rparr>, int (length tok), l_stamp, l_frid, l_fields)
      else if l = pfx @ ''header.stamp''
      then example_build pfx toks ls
             (m\<lparr>msg_stamp := tok\<rparr>, l_seq, int (length tok), l_frid, l_fields)
      else if l = pfx @ ''header.frame_id''
      then example_build pfx toks ls
             (m\<lparr>msg_frame := tok\<rparr>, l_seq, l_stamp, int (length tok), l_fields)
      else example_build pfx toks ls
             (m\<lparr>msg_values := msg_values m @ [tok]\<rparr>, l_seq, l_stamp, l_frid,
              l_fields @ [int (length tok)]))"
| "example_build pfx toks ls acc = acc"

text \<open>
  Modelled from the spec: \<^verbatim>\<open>Message::ToString\<close> (file \<^verbatim>\<open>message.h\<close>), ``a render method
  taking (scalar widths x3, generic-field widths, triple-present flag, separator) and
  returning a formatted line''. It writes the timestamp, the header triple when the flag
  is set, and each value padded to its width.
\<close>

definition example_ToString ::
  "example_message \<Rightarrow> int \<Rightarrow> int \<Rightarrow> int \<Rightarrow> int list \<Rightarrow> bool \<Rightarrow> string \<Rightarrow> string" where
  "example_ToString m w_seq w_stamp w_frid w_fields hdr sep =
     msg_time m
       @ (if hdr
          then sep @ setw w_seq (msg_seq m) @ sep @ setw w_stamp (msg_stamp m)
                 @ sep @ setw w_frid (msg_frame m)
          else [])
       @ concat (map (\<lambda>(w, v). sep @ setw w v) (zip w_fields (msg_values m)))"

text \<open>
  One value for the sum that overflows: the two's-complement result, which a build
  without optimisation computes.
\<close>

definition wrap_around :: "int \<Rightarrow> int \<Rightarrow> int" where
  "wrap_around a b = (a + b + 2 ^ 31) mod 2 ^ 32 - 2 ^ 31"

text \<open>
  Modelled from the spec: the constants \<^verbatim>\<open>Commons::CSVDelimiter\<close>,
  \<^verbatim>\<open>Commons::CSVFieldsPrefix\<close> and \<^verbatim>\<open>Commons::FaultTopicPrefix\<close> (file \<^verbatim>\<open>commons.h\<close>) and
  \<^verbatim>\<open>DateTime.ToString\<close> (file \<^verbatim>\<open>message.h\<close>). The example of the specification has the
  delimiter \<^verbatim>\<open>,\<close> and the field-name prefix \<^verbatim>\<open>field.\<close>. The specification gives no value
  for the fault-topic prefix and no format for the timestamp: the prefix here is one
  possible value, and the timestamp is shown as the text of its token.
\<close>

definition example_ext :: "example_message externals" where
  "example_ext =
     \<lparr> Tokenize = split_on CHR '','',
       CSVFieldsPrefix = ''field.'',
       FaultTopicPrefix = ''failure_status'',
       Message_TokensToMessage = (\<lambda>tokens labels.
          example_build ''field.'' tokens labels
            (\<lparr>msg_time = [], msg_seq = [], msg_stamp = [], msg_frame = [], msg_values = []\<rparr>,
             0, 0, 0, [])),
       Message_ToString = example_ToString,
       DateTime_ToString = msg_time,
       overflowed_sum = wrap_around \<rparr>"

section \<open>The classification of header labels, as the specification words it\<close>

text \<open>
  A second description of the first loop, following the specification rather than the
  code: each raw label is the timestamp column, a column of the header triple, or a
  generic field with its normalized label.
\<close>

datatype column_class = Timestamp | HeaderTriple | GenericField string

definition classify :: "string \<Rightarrow> string \<Rightarrow> column_class" where
  "classify pfx l =
     (if l = ''%time'' then Timestamp
      else if l \<in> {pfx @ ''header.seq'', pfx @ ''header.stamp'', pfx @ ''header.frame_id''}
      then HeaderTriple
      else if prefix pfx l then GenericField (drop (length pfx) l)
      else GenericField l)"

fun normalized_labels :: "string \<Rightarrow> string list \<Rightarrow> string list" where
  "normalized_labels pfx [] = []"
| "normalized_labels pfx (l # ls) =
     (case classify pfx l of
        Timestamp \<Rightarrow> normalized_labels pfx ls
      | HeaderTriple \<Rightarrow> normalized_labels pfx ls
      | GenericField s \<Rightarrow> s # normalized_labels pfx ls)"

fun triple_present :: "string \<Rightarrow> string list \<Rightarrow> bool" where
  "triple_present pfx [] = False"
| "triple_present pfx (l # ls) = (classify pfx l = HeaderTriple \<or> triple_present pfx ls)"

section \<open>Closed forms of the width loops\<close>

text \<open>
  What the second loop of \<^verbatim>\<open>ProcessHeader\<close> computes, as a function of the labels and
  the widths: each width that has a label is raised to the length of the label, and the
  widths beyond the labels are kept.
\<close>

fun raise_widths :: "string list \<Rightarrow> int list \<Rightarrow> int list" where
  "raise_widths (l # ls) (w # ws) = max w (int (length l)) # raise_widths ls ws"
| "raise_widths [] ws = ws"
| "raise_widths ls [] = []"

text \<open>
  What the loop of \<^verbatim>\<open>TokensToMessage\<close> computes from the widths of a row and the
  tracked widths: the maximum where both have an entry, and the longer list's own
  entries beyond.
\<close>

fun merge_widths :: "int list \<Rightarrow> int list \<Rightarrow> int list" where
  "merge_widths (l # ls) (w # ws) = max w l # merge_widths ls ws"
| "merge_widths ls [] = ls"
| "merge_widths [] ws = ws"

section \<open>The rows of a file, as ReadFromFile treats them\<close>

text \<open>
  Names for what the loop over the rows does with one line, given the raw header labels:
  its tokens after padding, whether it has at most as many tokens as the header, the
  message built from it and the widths the record builder reports for it.
\<close>

definition row_tokens :: "'m externals \<Rightarrow> string list \<Rightarrow> string \<Rightarrow> string list" where
  "row_tokens ext labels line = pad_tokens (Tokenize ext line) (length labels)"

definition row_fits :: "'m externals \<Rightarrow> string list \<Rightarrow> string \<Rightarrow> bool" where
  "row_fits ext labels line = (length (Tokenize ext line) \<le> length labels)"

definition row_message :: "'m externals \<Rightarrow> string list \<Rightarrow> string \<Rightarrow> 'm" where
  "row_message ext labels line = fst (Message_TokensToMessage ext (row_tokens ext labels line) labels)"

definition row_widths :: "'m externals \<Rightarrow> string list \<Rightarrow> string \<Rightarrow> int list" where
  "row_widths ext labels line =
     snd (snd (snd (snd (Message_TokensToMessage ext (row_tokens ext labels line) labels))))"

section \<open>Notions used to state the properties\<close>

text \<open>The three components of what \<open>ReadFromFile\<close> returns.\<close>

definition status_of :: "bool \<times> 'm Topic \<times> string list \<Rightarrow> bool" where
  "status_of r = fst r"

definition topic_of :: "bool \<times> 'm Topic \<times> string list \<Rightarrow> 'm Topic" where
  "topic_of r = fst (snd r)"

definition cerr_of :: "bool \<times> 'm Topic \<times> string list \<Rightarrow> string list" where
  "cerr_of r = snd (snd r)"

text \<open>
  The contract of the record builder that the specification states for its row widths
  (``the same cardinality \<dots> as the generic-field set for every row''): for a row with
  as many tokens as the header has labels, it reports one width for each label that is
  neither the timestamp nor part of the header triple.
\<close>

definition one_width_per_field :: "'m externals \<Rightarrow> string list \<Rightarrow> bool" where
  "one_width_per_field ext labels =
     (\<forall>tokens. length tokens = length labels \<longrightarrow>
        length (snd (snd (snd (snd (Message_TokensToMessage ext tokens labels)))))
          = length (normalized_labels (CSVFieldsPrefix ext) labels))"

text \<open>
  The widths that the rows read leave in \<open>len_fields\<close> before header finalization:
  starting from none, each row folds the widths reported for it into the widths so far.
\<close>

definition tracked_widths :: "'m externals \<Rightarrow> string list \<Rightarrow> string list \<Rightarrow> int list" where
  "tracked_widths ext labels rows =
     foldl (\<lambda>ws line. merge_widths (row_widths ext labels line) ws) [] rows"

text \<open>
  Every index of \<open>FieldLabels\<close> has a tracked width, and that width is at least the
  length of the label.
\<close>

definition every_label_has_width :: "'m Topic \<Rightarrow> bool" where
  "every_label_has_width t =
     (\<forall>i \<in> {0..<length (FieldLabels t)}.
        i < length (len_fields t) \<and> int (length (FieldLabels t ! i)) \<le> len_fields t ! i)"

text \<open>
  A file system for concrete inputs: a topic with the header triple and one row, a file
  with a header line only, a topic without the header triple, a file whose second row
  has a token too many, an empty file, and a file whose label is longer than the value
  read before its second row has a token too many. No other file exists.
\<close>

definition fs_example :: "string \<rightharpoonup> string list" where
  "fs_example =
     [''a.csv'' \<mapsto> [''%time,field.header.seq,field.header.stamp,field.header.frame_id,field.x'',
                    ''100,1,500,odom,3.14''],
      ''b.csv'' \<mapsto> [''%time,field.x''],
      ''c.csv'' \<mapsto> [''%time,field.x'', ''1537213568123456789,3.14'', ''1537213568223456789,2.5''],
      ''d.csv'' \<mapsto> [''%time,field.x'', ''1,2'', ''1,2,3'', ''4,5''],
      ''e.csv'' \<mapsto> [],
      ''g.csv'' \<mapsto> [''%time,field.velocity'', ''100,2.5'', ''200,3,4'', ''300,12345678901'']]"

text \<open>
  Closed forms of what \<^verbatim>\<open>PrintHeader\<close> returns and of the line it writes, for a topic
  with at least one message in which every label has a tracked width.
\<close>

definition header_total :: "'m externals \<Rightarrow> 'm Topic \<Rightarrow> string \<Rightarrow> int" where
  "header_total ext t sep =
     int (length hdr_ind) + int (length (DateTime_ToString ext (Messages t ! 0)))
       + len_seqid t + len_stamp t + len_frameid t
       + sum_list (take (length (FieldLabels t)) (len_fields t))
       + (6 + int (length (FieldLabels t))) * int (length sep)"

definition header_text :: "'m externals \<Rightarrow> 'm Topic \<Rightarrow> string \<Rightarrow> string" where
  "header_text ext t sep =
     sep @ hdr_ind @ sep
       @ setw (int (length (DateTime_ToString ext (Messages t ! 0)))) hdr_datetime
       @ (if has_header t
          then sep @ setw (len_seqid t) hdr_seq @ sep @ setw (len_stamp t) hdr_stamp
                 @ sep @ setw (len_frameid t) hdr_frid
          else [])
       @ concat (map (\<lambda>(w, l). sep @ setw w l) (zip (len_fields t) (FieldLabels t)))
       @ sep"

text \<open>
  The indices that the specification names for \<^verbatim>\<open>Print\<close>: those from \<open>n_start\<close> up to,
  and without, \<open>n_start + n_messages\<close>, clamped to the number of messages; a negative
  \<open>n_messages\<close> stands for the number of messages.
\<close>

definition selected_indices :: "'m Topic \<Rightarrow> int \<Rightarrow> int \<Rightarrow> int list" where
  "selected_indices t n_start n_messages =
     [n_start .. min (n_start + (if n_messages < 0 then int (length (Messages t)) else n_messages))
                     (int (length (Messages t))) - 1]"

section \<open>Properties of ProcessHeader\<close>

lemma prefix_take_iff: "prefix p l \<longleftrightarrow> take (length p) l = p"
proof
  assume "prefix p l"
  then obtain zs where "l = p @ zs" by (auto simp: prefix_def)
  then show "take (length p) l = p" by simp
next
  assume "take (length p) l = p"
  then have "l = p @ drop (length p) l" by (metis append_take_drop_id)
  then show "prefix p l" by (metis prefixI)
qed

lemma ProcessHeader_labels_orig [simp]:
  "orig_field_labels (ProcessHeader_labels pfx i t) = orig_field_labels t"
  by (induction pfx i t rule: ProcessHeader_labels.induct)
     (subst ProcessHeader_labels.simps, simp)

lemma ProcessHeader_labels_FieldLabels:
  "FieldLabels (ProcessHeader_labels pfx i t)
     = FieldLabels t @ normalized_labels pfx (drop i (orig_field_labels t))"
proof (induction pfx i t rule: ProcessHeader_labels.induct)
  case (1 pfx i t)
  show ?case
  proof (cases "i < length (orig_field_labels t)")
    case False
    then show ?thesis by (subst ProcessHeader_labels.simps) simp
  next
    case True
    then have d: "drop i (orig_field_labels t)
        = orig_field_labels t ! i # drop (Suc i) (orig_field_labels t)"
      by (simp add: Cons_nth_drop_Suc)
    show ?thesis
      using True "1.IH"
      by (subst ProcessHeader_labels.simps)
         (simp add: d classify_def prefix_take_iff)
  qed
qed

lemma ProcessHeader_labels_has_header:
  "has_header (ProcessHeader_labels pfx i t)
     = (has_header t \<or> triple_present pfx (drop i (orig_field_labels t)))"
proof (induction pfx i t rule: ProcessHeader_labels.induct)
  case (1 pfx i t)
  show ?case
  proof (cases "i < length (orig_field_labels t)")
    case False
    then show ?thesis by (subst ProcessHeader_labels.simps) simp
  next
    case True
    then have d: "drop i (orig_field_labels t)
        = orig_field_labels t ! i # drop (Suc i) (orig_field_labels t)"
      by (simp add: Cons_nth_drop_Suc)
    show ?thesis
      using True "1.IH"
      by (subst ProcessHeader_labels.simps)
         (auto simp add: d classify_def prefix_take_iff)
  qed
qed

lemma ProcessHeader_labels_others [simp]:
  "Name (ProcessHeader_labels pfx i t) = Name t
   \<and> FileName (ProcessHeader_labels pfx i t) = FileName t
   \<and> Messages (ProcessHeader_labels pfx i t) = Messages t
   \<and> is_initialized (ProcessHeader_labels pfx i t) = is_initialized t
   \<and> is_fault_topic (ProcessHeader_labels pfx i t) = is_fault_topic t
   \<and> len_seqid (ProcessHeader_labels pfx i t) = len_seqid t
   \<and> len_stamp (ProcessHeader_labels pfx i t) = len_stamp t
   \<and> len_frameid (ProcessHeader_labels pfx i t) = len_frameid t
   \<and> len_fields (ProcessHeader_labels pfx i t) = len_fields t"
proof (induction pfx i t rule: ProcessHeader_labels.induct)
  case (1 pfx i t)
  then show ?case by (simp add: ProcessHeader_labels.simps [of pfx i t])
qed

lemma raise_widths_Nil2 [simp]: "raise_widths ls [] = []"
  by (cases ls) simp_all

lemma length_raise_widths [simp]: "length (raise_widths ls ws) = length ws"
  by (induction ls ws rule: raise_widths.induct) simp_all

lemma nth_raise_widths:
  "j < length ws \<Longrightarrow> j < length ls \<Longrightarrow>
     raise_widths ls ws ! j = max (ws ! j) (int (length (ls ! j)))"
proof (induction ls ws arbitrary: j rule: raise_widths.induct)
  case (1 l ls w ws)
  then show ?case by (cases j) simp_all
qed simp_all

lemma ProcessHeader_widths_others [simp]:
  "Name (ProcessHeader_widths i t) = Name t
   \<and> FileName (ProcessHeader_widths i t) = FileName t
   \<and> FieldLabels (ProcessHeader_widths i t) = FieldLabels t
   \<and> Messages (ProcessHeader_widths i t) = Messages t
   \<and> is_initialized (ProcessHeader_widths i t) = is_initialized t
   \<and> is_fault_topic (ProcessHeader_widths i t) = is_fault_topic t
   \<and> len_seqid (ProcessHeader_widths i t) = len_seqid t
   \<and> len_stamp (ProcessHeader_widths i t) = len_stamp t
   \<and> len_frameid (ProcessHeader_widths i t) = len_frameid t
   \<and> orig_field_labels (ProcessHeader_widths i t) = orig_field_labels t
   \<and> has_header (ProcessHeader_widths i t) = has_header t"
proof (induction i t rule: ProcessHeader_widths.induct)
  case (1 i t)
  then show ?case by (simp add: ProcessHeader_widths.simps [of i t])
qed

lemma ProcessHeader_widths_len_fields:
  "len_fields (ProcessHeader_widths i t)
     = take i (len_fields t) @ raise_widths (drop i (FieldLabels t)) (drop i (len_fields t))"
proof (induction i t rule: ProcessHeader_widths.induct)
  case (1 i t)
  show ?case
  proof (cases "i < length (FieldLabels t) \<and> i < length (len_fields t)")
    case False
    show ?thesis
    proof (cases "i < length (FieldLabels t)")
      case True
      with False have "length (len_fields t) \<le> i" by simp
      with True show ?thesis by (subst ProcessHeader_widths.simps) simp
    next
      case False
      then show ?thesis by (subst ProcessHeader_widths.simps) simp
    qed
  next
    case True
    then have d: "drop i (FieldLabels t) = FieldLabels t ! i # drop (Suc i) (FieldLabels t)"
      "drop i (len_fields t) = len_fields t ! i # drop (Suc i) (len_fields t)"
      by (simp_all add: Cons_nth_drop_Suc)
    show ?thesis
      using True "1.IH"
      by (simp add: ProcessHeader_widths.simps [of i t] d take_Suc_conv_app_nth)
  qed
qed

lemma ProcessHeader_FieldLabels:
  "FieldLabels (ProcessHeader ext t)
     = FieldLabels t @ normalized_labels (CSVFieldsPrefix ext) (orig_field_labels t)"
  by (simp add: ProcessHeader_def Let_def ProcessHeader_labels_FieldLabels)

lemma ProcessHeader_has_header:
  "has_header (ProcessHeader ext t)
     = (has_header t \<or> triple_present (CSVFieldsPrefix ext) (orig_field_labels t))"
  by (simp add: ProcessHeader_def Let_def ProcessHeader_labels_has_header)

lemma ProcessHeader_others [simp]:
  "Name (ProcessHeader ext t) = Name t
   \<and> FileName (ProcessHeader ext t) = FileName t
   \<and> Messages (ProcessHeader ext t) = Messages t
   \<and> is_initialized (ProcessHeader ext t) = is_initialized t
   \<and> is_fault_topic (ProcessHeader ext t) = is_fault_topic t
   \<and> orig_field_labels (ProcessHeader ext t) = orig_field_labels t"
  by (simp add: ProcessHeader_def Let_def)

lemma ProcessHeader_scalars:
  "len_seqid (ProcessHeader ext t) = max (len_seqid t) 5
   \<and> len_stamp (ProcessHeader ext t) = max (len_stamp t) 10
   \<and> len_frameid (ProcessHeader ext t) = max (len_frameid t) 5"
  by (simp add: ProcessHeader_def Let_def hdr_seq_def hdr_stamp_def hdr_frid_def)

lemma ProcessHeader_len_fields:
  "len_fields (ProcessHeader ext t) = raise_widths (FieldLabels (ProcessHeader ext t)) (len_fields t)"
  by (simp add: ProcessHeader_def Let_def ProcessHeader_widths_len_fields)

section \<open>Properties of TokensToMessage and of the loop over the rows\<close>

lemma merge_widths_Nil1 [simp]: "merge_widths [] ws = ws"
  by (cases ws) simp_all

lemma length_merge_widths [simp]:
  "length (merge_widths ls ws) = max (length ls) (length ws)"
  by (induction ls ws rule: merge_widths.induct) simp_all

lemma TokensToMessage_fields_others [simp]:
  "Name (TokensToMessage_fields l i t) = Name t
   \<and> FileName (TokensToMessage_fields l i t) = FileName t
   \<and> FieldLabels (TokensToMessage_fields l i t) = FieldLabels t
   \<and> Messages (TokensToMessage_fields l i t) = Messages t
   \<and> is_initialized (TokensToMessage_fields l i t) = is_initialized t
   \<and> is_fault_topic (TokensToMessage_fields l i t) = is_fault_topic t
   \<and> len_seqid (TokensToMessage_fields l i t) = len_seqid t
   \<and> len_stamp (TokensToMessage_fields l i t) = len_stamp t
   \<and> len_frameid (TokensToMessage_fields l i t) = len_frameid t
   \<and> orig_field_labels (TokensToMessage_fields l i t) = orig_field_labels t
   \<and> has_header (TokensToMessage_fields l i t) = has_header t"
proof (induction l i t rule: TokensToMessage_fields.induct)
  case (1 l i t)
  then show ?case by (simp add: TokensToMessage_fields.simps [of l i t])
qed

lemma TokensToMessage_fields_len_fields:
  "i \<le> length (len_fields t) \<Longrightarrow>
     len_fields (TokensToMessage_fields l i t)
       = take i (len_fields t) @ merge_widths (drop i l) (drop i (len_fields t))"
proof (induction l i t rule: TokensToMessage_fields.induct)
  case (1 l i t)
  show ?case
  proof (cases "i < length l")
    case False
    then show ?thesis by (simp add: TokensToMessage_fields.simps [of l i t])
  next
    case True
    then have dl: "drop i l = l ! i # drop (Suc i) l"
      by (simp add: Cons_nth_drop_Suc)
    show ?thesis
    proof (cases "i = length (len_fields t)")
      case True
      have step: "TokensToMessage_fields l i t
          = TokensToMessage_fields l (i + 1) (t\<lparr>len_fields := len_fields t @ [l ! i]\<rparr>)"
        using \<open>i < length l\<close> True by (subst TokensToMessage_fields.simps) simp
      have "len_fields (TokensToMessage_fields l (i + 1)
              (t\<lparr>len_fields := len_fields t @ [l ! i]\<rparr>))
            = len_fields t @ [l ! i] @ drop (Suc i) l"
        using "1.IH"(1) [OF \<open>i < length l\<close> True] True by simp
      then show ?thesis
        unfolding step using True dl by simp
    next
      case False
      with "1.prems" have lt: "i < length (len_fields t)" by simp
      then have dw: "drop i (len_fields t) = len_fields t ! i # drop (Suc i) (len_fields t)"
        by (simp add: Cons_nth_drop_Suc)
      from False lt \<open>i < length l\<close> "1.IH"(2) show ?thesis
        by (simp add: TokensToMessage_fields.simps [of l i t] dl dw take_Suc_conv_app_nth)
    qed
  qed
qed

lemma TokensToMessage_fst:
  "fst (TokensToMessage ext tokens t)
     = fst (Message_TokensToMessage ext tokens (orig_field_labels t))"
  by (simp add: TokensToMessage_def Let_def split: prod.splits)

lemma TokensToMessage_others [simp]:
  "Name (snd (TokensToMessage ext tokens t)) = Name t
   \<and> FileName (snd (TokensToMessage ext tokens t)) = FileName t
   \<and> FieldLabels (snd (TokensToMessage ext tokens t)) = FieldLabels t
   \<and> Messages (snd (TokensToMessage ext tokens t)) = Messages t
   \<and> is_initialized (snd (TokensToMessage ext tokens t)) = is_initialized t
   \<and> is_fault_topic (snd (TokensToMessage ext tokens t)) = is_fault_topic t
   \<and> orig_field_labels (snd (TokensToMessage ext tokens t)) = orig_field_labels t
   \<and> has_header (snd (TokensToMessage ext tokens t)) = has_header t"
  by (simp add: TokensToMessage_def Let_def split: prod.splits)

lemma TokensToMessage_len_fields:
  "len_fields (snd (TokensToMessage ext tokens t))
     = merge_widths
         (snd (snd (snd (snd (Message_TokensToMessage ext tokens (orig_field_labels t))))))
         (len_fields t)"
  by (simp add: TokensToMessage_def Let_def TokensToMessage_fields_len_fields split: prod.splits)

lemma pad_tokens_eq: "pad_tokens tokens n = tokens @ replicate (n - length tokens) []"
proof (induction tokens n rule: pad_tokens.induct)
  case (1 tokens n)
  show ?case
  proof (cases "length tokens < n")
    case True
    then have "n - length tokens = Suc (n - Suc (length tokens))" by simp
    with True "1.IH" show ?thesis
      by (simp add: pad_tokens.simps [of tokens n])
  next
    case False
    then show ?thesis by (simp add: pad_tokens.simps [of tokens n])
  qed
qed

lemma length_row_tokens:
  "length (row_tokens ext labels line) = max (length (Tokenize ext line)) (length labels)"
  by (simp add: row_tokens_def pad_tokens_eq)

lemma ReadFromFile_rows_Cons_fits:
  "row_fits ext (orig_field_labels t) line \<Longrightarrow>
   ReadFromFile_rows ext filename (line # rest) n t
     = ReadFromFile_rows ext filename rest (n + 1)
         ((snd (TokensToMessage ext (row_tokens ext (orig_field_labels t) line) t))
            \<lparr>Messages := Messages t @ [row_message ext (orig_field_labels t) line]\<rparr>)"
  using length_row_tokens [of ext "orig_field_labels t" line]
  by (simp add: row_fits_def row_message_def TokensToMessage_fst row_tokens_def [symmetric]
        split: prod.splits)
     (metis TokensToMessage_fst TokensToMessage_others fst_conv snd_conv)

lemma ReadFromFile_rows_Cons_overflow:
  "\<not> row_fits ext (orig_field_labels t) line \<Longrightarrow>
   ReadFromFile_rows ext filename (line # rest) n t = (t, [row_error (n + 1) filename])"
  using length_row_tokens [of ext "orig_field_labels t" line]
  by (simp add: row_fits_def row_tokens_def [symmetric])

lemma ReadFromFile_rows_others [simp]:
  "Name (fst (ReadFromFile_rows ext filename rows n t)) = Name t
   \<and> FileName (fst (ReadFromFile_rows ext filename rows n t)) = FileName t
   \<and> FieldLabels (fst (ReadFromFile_rows ext filename rows n t)) = FieldLabels t
   \<and> is_initialized (fst (ReadFromFile_rows ext filename rows n t)) = is_initialized t
   \<and> is_fault_topic (fst (ReadFromFile_rows ext filename rows n t)) = is_fault_topic t
   \<and> orig_field_labels (fst (ReadFromFile_rows ext filename rows n t)) = orig_field_labels t
   \<and> has_header (fst (ReadFromFile_rows ext filename rows n t)) = has_header t"
proof (induction rows arbitrary: n t)
  case Nil
  show ?case by simp
next
  case (Cons line rest)
  show ?case
  proof (cases "row_fits ext (orig_field_labels t) line")
    case True
    show ?thesis
      unfolding ReadFromFile_rows_Cons_fits [OF True] by (simp add: Cons.IH)
  next
    case False
    show ?thesis
      unfolding ReadFromFile_rows_Cons_overflow [OF False] by simp
  qed
qed

lemma ReadFromFile_rows_all_fit:
  "\<forall>line \<in> set rows. row_fits ext (orig_field_labels t) line \<Longrightarrow>
     snd (ReadFromFile_rows ext filename rows n t) = []
     \<and> Messages (fst (ReadFromFile_rows ext filename rows n t))
         = Messages t @ map (row_message ext (orig_field_labels t)) rows"
proof (induction rows arbitrary: n t)
  case Nil
  show ?case by simp
next
  case (Cons line rest)
  then have fits: "row_fits ext (orig_field_labels t) line" by simp
  show ?case
    unfolding ReadFromFile_rows_Cons_fits [OF fits]
    using Cons.prems by (simp add: Cons.IH)
qed

lemma ReadFromFile_rows_overflow:
  "\<forall>line \<in> set pre. row_fits ext (orig_field_labels t) line \<Longrightarrow>
   \<not> row_fits ext (orig_field_labels t) bad \<Longrightarrow>
     ReadFromFile_rows ext filename (pre @ bad # post) n t
       = (fst (ReadFromFile_rows ext filename pre n t),
          [row_error (n + int (length pre) + 1) filename])"
proof (induction pre arbitrary: n t)
  case Nil
  then show ?case by (simp add: ReadFromFile_rows_Cons_overflow del: ReadFromFile_rows.simps(2))
next
  case (Cons line rest)
  then have fits: "row_fits ext (orig_field_labels t) line" by simp
  have "ReadFromFile_rows ext filename ((line # rest) @ bad # post) n t
      = ReadFromFile_rows ext filename (line # rest @ bad # post) n t" by simp
  also have "\<dots> = ReadFromFile_rows ext filename (rest @ bad # post) (n + 1)
         ((snd (TokensToMessage ext (row_tokens ext (orig_field_labels t) line) t))
            \<lparr>Messages := Messages t @ [row_message ext (orig_field_labels t) line]\<rparr>)"
    by (rule ReadFromFile_rows_Cons_fits [OF fits])
  also have "\<dots> = (fst (ReadFromFile_rows ext filename rest (n + 1)
         ((snd (TokensToMessage ext (row_tokens ext (orig_field_labels t) line) t))
            \<lparr>Messages := Messages t @ [row_message ext (orig_field_labels t) line]\<rparr>)),
          [row_error (n + 1 + int (length rest) + 1) filename])"
    using Cons.prems by (intro Cons.IH) simp_all
  finally show ?case
    unfolding ReadFromFile_rows_Cons_fits [OF fits] by simp
qed

lemma ReadFromFile_rows_len_fields:
  "\<forall>line \<in> set rows. row_fits ext (orig_field_labels t) line
      \<and> length (row_widths ext (orig_field_labels t) line) = m \<Longrightarrow>
   length (len_fields t) \<le> m \<Longrightarrow>
     length (len_fields (fst (ReadFromFile_rows ext filename rows n t)))
       = (if rows = [] then length (len_fields t) else m)"
proof (induction rows arbitrary: n t)
  case Nil
  show ?case by simp
next
  case (Cons line rest)
  then have fits: "row_fits ext (orig_field_labels t) line"
    and w: "length (row_widths ext (orig_field_labels t) line) = m" by simp_all
  let ?t = "(snd (TokensToMessage ext (row_tokens ext (orig_field_labels t) line) t))
            \<lparr>Messages := Messages t @ [row_message ext (orig_field_labels t) line]\<rparr>"
  have len: "length (len_fields ?t) = m"
    using w Cons.prems(2) by (simp add: TokensToMessage_len_fields row_widths_def)
  have "length (len_fields (fst (ReadFromFile_rows ext filename rest (n + 1) ?t)))
      = (if rest = [] then length (len_fields ?t) else m)"
    using Cons.prems(1) len by (intro Cons.IH) simp_all
  then show ?case
    unfolding ReadFromFile_rows_Cons_fits [OF fits] using len by simp
qed

section \<open>Properties of ReadFromFile\<close>

lemma ReadFromFile_None:
  "fs filename = None \<Longrightarrow>
     ReadFromFile ext fs filename t
       = (False, (Clear t)\<lparr>FileName := filename, Name := Name t\<rparr>, [open_error filename])"
  by (simp add: ReadFromFile_def)

lemma ReadFromFile_empty:
  "fs filename = Some [] \<Longrightarrow>
     ReadFromFile ext fs filename t
       = (False, (Clear t)\<lparr>FileName := filename, Name := Name t\<rparr>, [header_error filename])"
  by (simp add: ReadFromFile_def)

lemma ReadFromFile_Some:
  "fs filename = Some (header # rows) \<Longrightarrow>
     ReadFromFile ext fs filename t
       = (True,
          (classify_fault ext (ProcessHeader ext
             (fst (ReadFromFile_rows ext filename rows 0
                ((Clear t)\<lparr>FileName := filename, Name := Name t,
                           orig_field_labels := Tokenize ext header\<rparr>)))))
            \<lparr>is_initialized := True\<rparr>,
          snd (ReadFromFile_rows ext filename rows 0
                ((Clear t)\<lparr>FileName := filename, Name := Name t,
                           orig_field_labels := Tokenize ext header\<rparr>)))"
  by (simp add: ReadFromFile_def Let_def IsInitialized_def split: prod.splits)

lemma classify_fault_others [simp]:
  "Name (classify_fault ext t) = Name t
   \<and> FileName (classify_fault ext t) = FileName t
   \<and> FieldLabels (classify_fault ext t) = FieldLabels t
   \<and> Messages (classify_fault ext t) = Messages t
   \<and> is_initialized (classify_fault ext t) = is_initialized t
   \<and> len_seqid (classify_fault ext t) = len_seqid t
   \<and> len_stamp (classify_fault ext t) = len_stamp t
   \<and> len_frameid (classify_fault ext t) = len_frameid t
   \<and> len_fields (classify_fault ext t) = len_fields t
   \<and> orig_field_labels (classify_fault ext t) = orig_field_labels t
   \<and> has_header (classify_fault ext t) = has_header t"
  by (simp add: classify_fault_def)

lemma classify_fault_flag:
  "is_fault_topic (classify_fault ext t)
     = (if length (FaultTopicPrefix ext) \<le> length (Name t)
        then take (length (FaultTopicPrefix ext)) (Name t) = FaultTopicPrefix ext
        else is_fault_topic t)"
  by (simp add: classify_fault_def)

section \<open>The instance satisfies the contract of the record builder\<close>

lemma example_build_widths:
  "length toks = length ls \<Longrightarrow>
     length (snd (snd (snd (snd (example_build pfx toks ls (m, a, b, c, lf))))))
       = length lf + length (normalized_labels pfx ls)"
proof (induction pfx toks ls "(m, a, b, c, lf)" arbitrary: m a b c lf rule: example_build.induct)
  case (1 pfx tok toks l ls m l_seq l_stamp l_frid l_fields)
  then show ?case by (simp add: classify_def)
qed simp_all

lemma example_one_width_per_field: "one_width_per_field example_ext labels"
  by (simp add: one_width_per_field_def example_ext_def example_build_widths)

section \<open>The topic after a load\<close>

lemma row_widths_length:
  "one_width_per_field ext labels \<Longrightarrow> row_fits ext labels line \<Longrightarrow>
     length (row_widths ext labels line)
       = length (normalized_labels (CSVFieldsPrefix ext) labels)"
  using length_row_tokens [of ext labels line]
  by (simp add: one_width_per_field_def row_widths_def row_fits_def)

lemma loaded_FieldLabels:
  assumes "fs filename = Some (header # rows)"
  shows "FieldLabels (topic_of (ReadFromFile ext fs filename t))
           = normalized_labels (CSVFieldsPrefix ext) (Tokenize ext header)"
  by (simp add: topic_of_def ReadFromFile_Some [where fs = fs, OF assms]
        ProcessHeader_FieldLabels Clear_def)

lemma loaded_has_header:
  assumes "fs filename = Some (header # rows)"
  shows "has_header (topic_of (ReadFromFile ext fs filename t))
           = triple_present (CSVFieldsPrefix ext) (Tokenize ext header)"
  by (simp add: topic_of_def ReadFromFile_Some [where fs = fs, OF assms]
        ProcessHeader_has_header Clear_def)

lemma loaded_len_fields:
  assumes "fs filename = Some (header # rows)"
  shows "len_fields (topic_of (ReadFromFile ext fs filename t))
           = raise_widths (FieldLabels (topic_of (ReadFromFile ext fs filename t)))
               (len_fields (fst (ReadFromFile_rows ext filename rows 0
                  ((Clear t)\<lparr>FileName := filename, Name := Name t,
                             orig_field_labels := Tokenize ext header\<rparr>))))"
  by (simp add: topic_of_def ReadFromFile_Some [where fs = fs, OF assms]
        ProcessHeader_len_fields)

lemma loaded_scalars:
  assumes "fs filename = Some (header # rows)"
  shows "5 \<le> len_seqid (topic_of (ReadFromFile ext fs filename t))
       \<and> 10 \<le> len_stamp (topic_of (ReadFromFile ext fs filename t))
       \<and> 5 \<le> len_frameid (topic_of (ReadFromFile ext fs filename t))"
  by (simp add: topic_of_def ReadFromFile_Some [where fs = fs, OF assms]
        ProcessHeader_scalars)

lemma loaded_Messages:
  assumes "fs filename = Some (header # rows)"
  shows "Messages (topic_of (ReadFromFile ext fs filename t))
           = Messages (fst (ReadFromFile_rows ext filename rows 0
                  ((Clear t)\<lparr>FileName := filename, Name := Name t,
                             orig_field_labels := Tokenize ext header\<rparr>)))"
  by (simp add: topic_of_def ReadFromFile_Some [where fs = fs, OF assms])

lemma ReadFromFile_rows_widths:
  "\<forall>line \<in> set rows. row_fits ext (orig_field_labels t) line \<Longrightarrow>
     len_fields (fst (ReadFromFile_rows ext filename rows n t))
       = foldl (\<lambda>ws line. merge_widths (row_widths ext (orig_field_labels t) line) ws)
           (len_fields t) rows"
proof (induction rows arbitrary: n t)
  case Nil
  show ?case by simp
next
  case (Cons line rest)
  then have fits: "row_fits ext (orig_field_labels t) line" by simp
  show ?case
    unfolding ReadFromFile_rows_Cons_fits [OF fits]
    using Cons.prems
    by (simp add: Cons.IH TokensToMessage_len_fields row_widths_def)
qed

lemma loaded_flags:
  assumes "fs filename = Some (header # rows)"
  shows "status_of (ReadFromFile ext fs filename t) = True
       \<and> IsInitialized (topic_of (ReadFromFile ext fs filename t)) = True
       \<and> cerr_of (ReadFromFile ext fs filename t)
           = snd (ReadFromFile_rows ext filename rows 0
                  ((Clear t)\<lparr>FileName := filename, Name := Name t,
                             orig_field_labels := Tokenize ext header\<rparr>))"
  by (simp add: status_of_def topic_of_def cerr_of_def IsInitialized_def
        ReadFromFile_Some [where fs = fs, OF assms])

lemma loaded_topic:
  assumes "fs filename = Some (header # rows)"
  shows "topic_of (ReadFromFile ext fs filename t)
       = (classify_fault ext (ProcessHeader ext
             (fst (ReadFromFile_rows ext filename rows 0
                ((Clear t)\<lparr>FileName := filename, Name := Name t,
                           orig_field_labels := Tokenize ext header\<rparr>)))))
            \<lparr>is_initialized := True\<rparr>"
  by (simp add: topic_of_def ReadFromFile_Some [where fs = fs, OF assms])

lemma ReadFromFile_rows_len_fields_ge:
  assumes "one_width_per_field ext (orig_field_labels t)"
  shows "length (len_fields t) \<le> length (len_fields (fst (ReadFromFile_rows ext filename rows n t)))
    \<and> length (Messages t) \<le> length (Messages (fst (ReadFromFile_rows ext filename rows n t)))
    \<and> (length (Messages t) < length (Messages (fst (ReadFromFile_rows ext filename rows n t)))
         \<longrightarrow> length (normalized_labels (CSVFieldsPrefix ext) (orig_field_labels t))
               \<le> length (len_fields (fst (ReadFromFile_rows ext filename rows n t))))"
  using assms
proof (induction rows arbitrary: n t)
  case Nil
  show ?case by simp
next
  case (Cons line rest)
  show ?case
  proof (cases "row_fits ext (orig_field_labels t) line")
    case False
    show ?thesis
      unfolding ReadFromFile_rows_Cons_overflow [OF False] by simp
  next
    case True
    let ?t = "(snd (TokensToMessage ext (row_tokens ext (orig_field_labels t) line) t))
            \<lparr>Messages := Messages t @ [row_message ext (orig_field_labels t) line]\<rparr>"
    have len: "length (len_fields ?t)
        = max (length (normalized_labels (CSVFieldsPrefix ext) (orig_field_labels t)))
              (length (len_fields t))"
      using row_widths_length [OF Cons.prems True]
      by (simp add: TokensToMessage_len_fields row_widths_def)
    have c: "one_width_per_field ext (orig_field_labels ?t)"
      using Cons.prems by simp
    have m: "length (Messages ?t) = Suc (length (Messages t))" by simp
    from Cons.IH [OF c, where n = "n + 1"] len m show ?thesis
      unfolding ReadFromFile_rows_Cons_fits [OF True]
      by (simp del: ReadFromFile_rows.simps)
  qed
qed

lemma loaded_every_label_has_width:
  assumes "fs filename = Some (header # rows)"
    and "one_width_per_field ext (Tokenize ext header)"
    and "Messages (topic_of (ReadFromFile ext fs filename t)) \<noteq> []"
  shows "every_label_has_width (topic_of (ReadFromFile ext fs filename t))"
proof -
  let ?t0 = "(Clear t)\<lparr>FileName := filename, Name := Name t,
                        orig_field_labels := Tokenize ext header\<rparr>"
  let ?t1 = "fst (ReadFromFile_rows ext filename rows 0 ?t0)"
  let ?t' = "topic_of (ReadFromFile ext fs filename t)"
  have c: "one_width_per_field ext (orig_field_labels ?t0)" using assms(2) by simp
  have "Messages ?t1 \<noteq> []"
    using assms(3) unfolding loaded_Messages [where fs = fs, OF assms(1)] .
  then have "length (Messages ?t0) < length (Messages ?t1)" by (simp add: Clear_def)
  with ReadFromFile_rows_len_fields_ge [OF c, where filename = filename and rows = rows and n = 0]
  have "length (normalized_labels (CSVFieldsPrefix ext) (Tokenize ext header))
          \<le> length (len_fields ?t1)" by simp
  then have cover: "length (FieldLabels ?t') \<le> length (len_fields ?t1)"
    by (simp add: loaded_FieldLabels [where fs = fs, OF assms(1)])
  show ?thesis
    unfolding every_label_has_width_def
  proof
    fix i assume "i \<in> {0..<length (FieldLabels ?t')}"
    then have i: "i < length (FieldLabels ?t')" by simp
    with cover have i': "i < length (len_fields ?t1)" by simp
    show "i < length (len_fields ?t') \<and> int (length (FieldLabels ?t' ! i)) \<le> len_fields ?t' ! i"
      unfolding loaded_len_fields [where fs = fs, OF assms(1)]
      using i i' by (simp add: nth_raise_widths)
  qed
qed

text \<open>
  The status that \<^verbatim>\<open>ReadFromFile\<close> returns is the value of \<^verbatim>\<open>IsInitialized()\<close>, and a
  row with too many tokens leaves the loop by \<^verbatim>\<open>break\<close>, after which the topic is marked
  initialized: the status is true for every file that has a header line, also when a row
  overflows.
\<close>

lemma row_overflow_status:
  assumes "fs filename = Some (header # pre @ bad # post)"
  shows "status_of (ReadFromFile ext fs filename t) = True"
  using loaded_flags [where fs = fs and ext = ext and t = t, OF assms] by simp

section \<open>Properties of PrintHeader and Print\<close>

lemma PrintHeader_total_eq:
  "length (FieldLabels t) \<le> length (len_fields t) \<Longrightarrow>
     PrintHeader_total i t acc
       = Inr (acc + sum_list (drop i (take (length (FieldLabels t)) (len_fields t))))"
proof (induction i t acc rule: PrintHeader_total.induct)
  case (1 i t acc)
  show ?case
  proof (cases "i < length (FieldLabels t)")
    case False
    then show ?thesis by (simp add: PrintHeader_total.simps [of i t acc])
  next
    case True
    with "1.prems" have lt: "i < length (len_fields t)" by simp
    have d: "drop i (take (length (FieldLabels t)) (len_fields t))
        = len_fields t ! i # drop (Suc i) (take (length (FieldLabels t)) (len_fields t))"
      using True lt by (simp add: Cons_nth_drop_Suc [symmetric])
    from True lt "1.IH" [OF True lt "1.prems"] show ?thesis
      by (simp add: PrintHeader_total.simps [of i t acc] d)
  qed
qed

lemma PrintHeader_fields_eq:
  "length (FieldLabels t) \<le> length (len_fields t) \<Longrightarrow>
     PrintHeader_fields sep i t out
       = Inr (out @ concat (map (\<lambda>(w, l). sep @ setw w l)
                 (drop i (zip (len_fields t) (FieldLabels t)))))"
proof (induction sep i t out rule: PrintHeader_fields.induct)
  case (1 sep i t out)
  show ?case
  proof (cases "i < length (FieldLabels t)")
    case False
    then show ?thesis by (simp add: PrintHeader_fields.simps [of sep i t out])
  next
    case True
    with "1.prems" have lt: "i < length (len_fields t)" by simp
    have d: "drop i (zip (len_fields t) (FieldLabels t))
        = (len_fields t ! i, FieldLabels t ! i) # drop (Suc i) (zip (len_fields t) (FieldLabels t))"
      using True lt by (simp add: Cons_nth_drop_Suc [symmetric])
    from True lt "1.IH" [OF True lt "1.prems"] show ?thesis
      by (simp add: PrintHeader_fields.simps [of sep i t out] d)
  qed
qed

lemma PrintHeader_eq:
  assumes "Messages t \<noteq> []" and "length (FieldLabels t) \<le> length (len_fields t)"
  shows "PrintHeader ext t sep = Inr (header_total ext t sep, [header_text ext t sep])"
  using assms(1)
  by (simp add: PrintHeader_def Let_def PrintHeader_total_eq [OF assms(2)]
        PrintHeader_fields_eq [OF assms(2)] header_total_def header_text_def)

lemma PrintHeader_no_messages:
  "Messages t = [] \<Longrightarrow> PrintHeader ext t sep = Inr (0, [])"
  by (simp add: PrintHeader_def)

lemma Print_loop_eq:
  "Print_loop ext t sep bound i p out
     = (p + int (length [i .. min bound (int (length (Messages t))) - 1]),
        out @ map (Print_line ext t sep) [i .. min bound (int (length (Messages t))) - 1])"
proof (induction ext t sep bound i p out rule: Print_loop.induct)
  case (1 ext t sep bound i p out)
  show ?case
  proof (cases "i < bound \<and> i < int (length (Messages t))")
    case False
    then have e: "min bound (int (length (Messages t))) - 1 < i" by auto
    have "Print_loop ext t sep bound i p out = (p, out)"
      using False by (subst Print_loop.simps) auto
    with e show ?thesis by simp
  next
    case True
    then have le: "i \<le> min bound (int (length (Messages t))) - 1" by auto
    have u: "[i .. min bound (int (length (Messages t))) - 1]
        = i # [i + 1 .. min bound (int (length (Messages t))) - 1]"
      using le by (rule upto_rec1)
    have "Print_loop ext t sep bound i p out
        = Print_loop ext t sep bound (i + 1) (p + 1) (out @ [Print_line ext t sep i])"
      using True by (subst Print_loop.simps) simp
    also have "\<dots> = (p + 1 + int (length [i + 1 .. min bound (int (length (Messages t))) - 1]),
        (out @ [Print_line ext t sep i])
          @ map (Print_line ext t sep) [i + 1 .. min bound (int (length (Messages t))) - 1])"
      using True by (intro "1.IH") simp
    also have "\<dots> = (p + int (length [i .. min bound (int (length (Messages t))) - 1]),
        out @ map (Print_line ext t sep) [i .. min bound (int (length (Messages t))) - 1])"
      unfolding u by simp
    finally show ?thesis .
  qed
qed

lemma signed_sum_exact:
  "0 \<le> a \<Longrightarrow> 0 \<le> b \<Longrightarrow> a + b < 2 ^ 31 \<Longrightarrow> signed_sum ext a b = a + b"
  by (simp add: signed_sum_def int_range_def)

lemma signed_sum_zero: "signed_sum ext a 0 = a"
  by (auto simp add: signed_sum_def)

text \<open>
  The length of the line \<^verbatim>\<open>PrintHeader\<close> writes, against the number it returns. When the
  widths are at least as long as their labels and the formatted timestamp is at least as
  long as its label, the two agree for a topic with the header triple. For a topic without
  it the line leaves out the three columns of the triple and their separators, which the
  returned number still counts.
\<close>

lemma fields_text_length:
  "length ls \<le> length ws \<Longrightarrow> \<forall>i < length ls. int (length (ls ! i)) \<le> ws ! i \<Longrightarrow>
     int (length (concat (map (\<lambda>(w, l). sep @ setw w l) (zip ws ls))))
       = int (length ls) * int (length sep) + sum_list (take (length ls) ws)"
proof (induction ws arbitrary: ls)
  case Nil
  then show ?case by simp
next
  case (Cons w ws)
  show ?case
  proof (cases ls)
    case Nil
    then show ?thesis by simp
  next
    case (Cons l ls')
    with Cons.prems have le: "length ls' \<le> length ws"
      and w: "int (length l) \<le> w"
      and rest: "\<forall>i < length ls'. int (length (ls' ! i)) \<le> ws ! i"
      by (simp, fastforce, fastforce)
    from Cons.IH [OF le rest] w show ?thesis
      by (simp add: Cons setw_def algebra_simps)
  qed
qed

lemma every_label_has_width_iff:
  "every_label_has_width t
     \<longleftrightarrow> length (FieldLabels t) \<le> length (len_fields t)
        \<and> (\<forall>i < length (FieldLabels t). int (length (FieldLabels t ! i)) \<le> len_fields t ! i)"
  unfolding every_label_has_width_def
proof
  assume a: "\<forall>i\<in>{0..<length (FieldLabels t)}.
      i < length (len_fields t) \<and> int (length (FieldLabels t ! i)) \<le> len_fields t ! i"
  have "length (FieldLabels t) \<le> length (len_fields t)"
  proof (cases "FieldLabels t")
    case Nil
    then show ?thesis by simp
  next
    case (Cons l ls)
    then have "length (FieldLabels t) - 1 \<in> {0..<length (FieldLabels t)}" by simp
    with a have "length (FieldLabels t) - 1 < length (len_fields t)" by blast
    then show ?thesis by simp
  qed
  with a show "length (FieldLabels t) \<le> length (len_fields t)
        \<and> (\<forall>i < length (FieldLabels t). int (length (FieldLabels t ! i)) \<le> len_fields t ! i)"
    by simp
next
  assume "length (FieldLabels t) \<le> length (len_fields t)
        \<and> (\<forall>i < length (FieldLabels t). int (length (FieldLabels t ! i)) \<le> len_fields t ! i)"
  then show "\<forall>i\<in>{0..<length (FieldLabels t)}.
      i < length (len_fields t) \<and> int (length (FieldLabels t ! i)) \<le> len_fields t ! i"
    by auto
qed

lemma tracked_widths_nonneg:
  assumes "every_label_has_width t"
  shows "0 \<le> sum_list (take (length (FieldLabels t)) (len_fields t))"
proof (rule sum_list_nonneg)
  fix x assume "x \<in> set (take (length (FieldLabels t)) (len_fields t))"
  then obtain i where i: "i < length (take (length (FieldLabels t)) (len_fields t))"
    and x: "x = take (length (FieldLabels t)) (len_fields t) ! i"
    by (auto simp add: in_set_conv_nth)
  from i have "i < length (FieldLabels t)" by simp
  with assms have "int (length (FieldLabels t ! i)) \<le> len_fields t ! i"
    by (simp add: every_label_has_width_iff)
  with i x show "0 \<le> x" by simp
qed

lemma header_text_length:
  assumes "every_label_has_width t"
    and "int (length hdr_datetime) \<le> int (length (DateTime_ToString ext (Messages t ! 0)))"
    and "int (length hdr_seq) \<le> len_seqid t"
    and "int (length hdr_stamp) \<le> len_stamp t"
    and "int (length hdr_frid) \<le> len_frameid t"
  shows "int (length (header_text ext t sep))
     = header_total ext t sep
         - (if has_header t then 0
            else len_seqid t + len_stamp t + len_frameid t + 3 * int (length sep))"
proof -
  from assms(1) have f: "int (length (concat (map (\<lambda>(w, l). sep @ setw w l)
        (zip (len_fields t) (FieldLabels t)))))
      = int (length (FieldLabels t)) * int (length sep)
        + sum_list (take (length (FieldLabels t)) (len_fields t))"
    by (intro fields_text_length) (simp_all add: every_label_has_width_iff)
  have s: "\<And>w s. int (length s) \<le> w \<Longrightarrow> int (length (setw w s)) = w"
    by (simp add: setw_def)
  show ?thesis
    using assms(2-5) f
    by (simp add: header_text_def header_total_def s algebra_simps)
qed

lemma loaded_PrintHeader:
  assumes "fs filename = Some (header # rows)"
    and "one_width_per_field ext (Tokenize ext header)"
    and "Messages (topic_of (ReadFromFile ext fs filename t)) \<noteq> []"
  shows "PrintHeader ext (topic_of (ReadFromFile ext fs filename t)) sep
           = Inr (header_total ext (topic_of (ReadFromFile ext fs filename t)) sep,
                  [header_text ext (topic_of (ReadFromFile ext fs filename t)) sep])
       \<and> 0 \<le> header_total ext (topic_of (ReadFromFile ext fs filename t)) sep"
proof -
  let ?t = "topic_of (ReadFromFile ext fs filename t)"
  have e: "every_label_has_width ?t"
    using assms by (rule loaded_every_label_has_width)
  then have c: "length (FieldLabels ?t) \<le> length (len_fields ?t)"
    by (simp add: every_label_has_width_iff)
  have "0 \<le> (6 + int (length (FieldLabels ?t))) * int (length sep)" by simp
  with tracked_widths_nonneg [OF e]
    loaded_scalars [where fs = fs and ext = ext and t = t, OF assms(1)]
  have "0 \<le> header_total ext ?t sep"
    unfolding header_total_def by linarith
  with PrintHeader_eq [OF assms(3) c] show ?thesis by simp
qed

lemma Print_unfold:
  assumes "0 \<le> n_start" and "PrintHeader ext t sep = Inr (w, hdr)" and "0 \<le> w"
  shows "Print ext t n_start n_messages sep
     = Inr (Print_loop ext t sep
              (signed_sum ext n_start
                 (if n_messages < 0 then int (length (Messages t)) else n_messages))
              n_start 0 (hdr @ [replicate (nat w) CHR ''-'']))"
  using assms by (simp add: Print_def Let_def)

text \<open>
  What \<^verbatim>\<open>Print\<close> writes once the header and the rule are out, for every start index that
  is not negative: the lines of the messages from \<open>n_start\<close> up to the bound that the
  sum gives, also when the sum overflows.
\<close>

lemma Print_eq:
  assumes "0 \<le> n_start" and "PrintHeader ext t sep = Inr (w, hdr)" and "0 \<le> w"
  shows "Print ext t n_start n_messages sep
     = Inr (int (length [n_start ..
                  min (signed_sum ext n_start
                         (if n_messages < 0 then int (length (Messages t)) else n_messages))
                      (int (length (Messages t))) - 1]),
            hdr @ [replicate (nat w) CHR ''-'']
              @ map (Print_line ext t sep)
                  [n_start ..
                     min (signed_sum ext n_start
                            (if n_messages < 0 then int (length (Messages t)) else n_messages))
                         (int (length (Messages t))) - 1])"
  unfolding Print_unfold [OF assms] Print_loop_eq by simp

text \<open>
  Where the sum overflows the message lines depend on the build. With two messages loaded,
  \<^verbatim>\<open>Print(1, 2147483647, " | ")\<close> writes no message line when the sum wraps around, and
  the line of message 1 when the comparison is made with the exact sum.
\<close>

lemma Print_overflow_example:
  "Print example_ext (topic_of (ReadFromFile example_ext fs_example ''c.csv'' new_Topic))
       1 2147483647 '' | ''
     = Inr (0, ['' | Index |     Date/Time Stamp |    x | '', replicate 69 CHR ''-''])
   \<and> Print (example_ext\<lparr>overflowed_sum := (\<lambda>a b. a + b)\<rparr>)
         (topic_of (ReadFromFile example_ext fs_example ''c.csv'' new_Topic))
         1 2147483647 '' | ''
     = Inr (1, ['' | Index |     Date/Time Stamp |    x | '', replicate 69 CHR ''-'',
                '' |     1 | 1537213568223456789 |  2.5 | ''])"
  by code_simp

section \<open>The claims\<close>

text \<open>
  C1, amended. Take a file with a header line whose rows each have at most as many tokens
  as the header, and a record builder that reports one width per generic field.
  \<^verbatim>\<open>ReadFromFile\<close> succeeds, and when the file has at least one data row
  \<open>len_fields\<close> has as many entries as \<open>FieldLabels\<close>. When the file has no data row
  \<open>len_fields\<close> is empty, whatever \<open>FieldLabels\<close> holds: the widths are only ever
  extended by a row, and \<^verbatim>\<open>ProcessHeader\<close> leaves its loop at the first label without
  a tracked width.
\<close>

theorem widths_match_labels_when_rows_read:
  assumes "fs filename = Some (header # rows)"
    and "\<forall>line \<in> set rows. row_fits ext (Tokenize ext header) line"
    and "one_width_per_field ext (Tokenize ext header)"
  shows "status_of (ReadFromFile ext fs filename t) = True
    \<and> length (len_fields (topic_of (ReadFromFile ext fs filename t)))
        = (if rows = [] then 0
           else length (FieldLabels (topic_of (ReadFromFile ext fs filename t))))"
proof -
  let ?t0 = "(Clear t)\<lparr>FileName := filename, Name := Name t,
                        orig_field_labels := Tokenize ext header\<rparr>"
  let ?m = "length (normalized_labels (CSVFieldsPrefix ext) (Tokenize ext header))"
  have rows: "\<forall>line \<in> set rows. row_fits ext (orig_field_labels ?t0) line
      \<and> length (row_widths ext (orig_field_labels ?t0) line) = ?m"
    using assms(2) row_widths_length [OF assms(3)] by simp
  have "length (len_fields (fst (ReadFromFile_rows ext filename rows 0 ?t0)))
      = (if rows = [] then length (len_fields ?t0) else ?m)"
    by (rule ReadFromFile_rows_len_fields [OF rows]) (simp add: Clear_def)
  then have "length (len_fields (topic_of (ReadFromFile ext fs filename t)))
      = (if rows = [] then 0 else ?m)"
    unfolding loaded_len_fields [where fs = fs, OF assms(1)] by (simp add: Clear_def)
  then show ?thesis
    using loaded_flags [where fs = fs and ext = ext and t = t, OF assms(1)]
    by (simp add: loaded_FieldLabels [where fs = fs, OF assms(1)])
qed

theorem widths_match_labels_when_rows_read_witness:
  "fs_example ''a.csv''
     = Some [''%time,field.header.seq,field.header.stamp,field.header.frame_id,field.x'',
             ''100,1,500,odom,3.14'']
   \<and> row_fits example_ext
         (Tokenize example_ext
            ''%time,field.header.seq,field.header.stamp,field.header.frame_id,field.x'')
         ''100,1,500,odom,3.14''
   \<and> one_width_per_field example_ext
         (Tokenize example_ext
            ''%time,field.header.seq,field.header.stamp,field.header.frame_id,field.x'')
   \<and> length (len_fields (topic_of (ReadFromFile example_ext fs_example ''a.csv'' new_Topic)))
       = length (FieldLabels (topic_of (ReadFromFile example_ext fs_example ''a.csv'' new_Topic)))
   \<and> FieldLabels (topic_of (ReadFromFile example_ext fs_example ''a.csv'' new_Topic)) = [''x'']"
proof -
  have f: "fs_example ''a.csv''
     = Some [''%time,field.header.seq,field.header.stamp,field.header.frame_id,field.x'',
             ''100,1,500,odom,3.14'']"
    by (simp add: fs_example_def)
  have r: "\<forall>line \<in> set [''100,1,500,odom,3.14'']. row_fits example_ext
         (Tokenize example_ext
            ''%time,field.header.seq,field.header.stamp,field.header.frame_id,field.x'') line"
    by (simp add: row_fits_def example_ext_def)
  have l: "FieldLabels (topic_of (ReadFromFile example_ext fs_example ''a.csv'' new_Topic)) = [''x'']"
    by code_simp
  show ?thesis
    using f r example_one_width_per_field
      widths_match_labels_when_rows_read [where fs = fs_example, OF f r
        example_one_width_per_field, of new_Topic]
    by (simp add: l)
qed

text \<open>
  C1 as stated fails for a file that has only a header line. \<^verbatim>\<open>b.csv\<close> holds the line
  \<^verbatim>\<open>%time,field.x\<close> and nothing else: the load succeeds with one normalized label and no
  tracked width.
\<close>

theorem header_only_file_has_no_widths:
  "status_of (ReadFromFile example_ext fs_example ''b.csv'' new_Topic) = True
   \<and> FieldLabels (topic_of (ReadFromFile example_ext fs_example ''b.csv'' new_Topic)) = [''x'']
   \<and> len_fields (topic_of (ReadFromFile example_ext fs_example ''b.csv'' new_Topic)) = []
   \<and> length (FieldLabels (topic_of (ReadFromFile example_ext fs_example ''b.csv'' new_Topic)))
       \<noteq> length (len_fields (topic_of (ReadFromFile example_ext fs_example ''b.csv'' new_Topic)))"
  by code_simp

text \<open>
  C2. \<^verbatim>\<open>ProcessHeader\<close> classifies the raw labels in order. A label equal to
  \<^verbatim>\<open>%time\<close> is left out of \<open>FieldLabels\<close>; a label equal to the field-name prefix
  followed by \<^verbatim>\<open>header.seq\<close>, \<^verbatim>\<open>header.stamp\<close> or \<^verbatim>\<open>header.frame_id\<close> is left out and
  sets \<open>has_header\<close>; every other label is appended, without the prefix when it starts
  with it and unchanged otherwise. \<open>normalized_labels\<close> and \<open>triple_present\<close> say this in
  the words of the specification: they keep order and duplicates, and on the empty list
  they give no label and no header triple. The labels are appended to the
  \<open>FieldLabels\<close> the topic has, which are empty when \<^verbatim>\<open>ReadFromFile\<close> calls the function.
\<close>

theorem ProcessHeader_classifies_labels:
  "FieldLabels (ProcessHeader ext t)
     = FieldLabels t @ normalized_labels (CSVFieldsPrefix ext) (orig_field_labels t)
   \<and> has_header (ProcessHeader ext t)
     = (has_header t \<or> triple_present (CSVFieldsPrefix ext) (orig_field_labels t))"
  by (simp add: ProcessHeader_FieldLabels ProcessHeader_has_header)

theorem ProcessHeader_classifies_labels_witness:
  "FieldLabels (ProcessHeader example_ext
      ((Clear new_Topic)\<lparr>orig_field_labels :=
         [''%time'', ''field.header.seq'', ''field.header.stamp'', ''field.header.frame_id'',
          ''field.x'']\<rparr>)) = [''x'']
   \<and> has_header (ProcessHeader example_ext
      ((Clear new_Topic)\<lparr>orig_field_labels :=
         [''%time'', ''field.header.seq'', ''field.header.stamp'', ''field.header.frame_id'',
          ''field.x'']\<rparr>)) = True
   \<and> FieldLabels (ProcessHeader example_ext (Clear new_Topic)) = []
   \<and> has_header (ProcessHeader example_ext (Clear new_Topic)) = False"
  using ProcessHeader_classifies_labels [of example_ext
      "(Clear new_Topic)\<lparr>orig_field_labels :=
         [''%time'', ''field.header.seq'', ''field.header.stamp'', ''field.header.frame_id'',
          ''field.x'']\<rparr>"]
    ProcessHeader_classifies_labels [of example_ext "Clear new_Topic"]
  by (simp add: classify_def example_ext_def Clear_def new_Topic_def)

text \<open>
  C3. Let the file have a header line, then rows \<open>pre\<close> that each have at most as many
  tokens as the header, then a row \<open>bad\<close> with more tokens, then any rows \<open>post\<close>.
  \<^verbatim>\<open>ReadFromFile\<close> writes one line to \<^verbatim>\<open>std::cerr\<close>, which names the number of the
  offending row counted from 1. The topic it leaves is the topic that loading the file cut
  before the offending row leaves, so no later row is read and header finalization and
  fault classification have run: the messages are those of the rows \<open>pre\<close>, in order;
  \<open>FieldLabels\<close> holds the normalized labels and \<open>has_header\<close> tells whether the header
  triple is present; each scalar width is at least the length of its label, and
  \<open>len_fields\<close> holds the widths that the rows \<open>pre\<close> left, each raised to the length of
  its label; the fault flag follows the name; and the topic is initialized.
\<close>

theorem row_overflow_keeps_earlier_rows:
  assumes "fs filename = Some (header # pre @ bad # post)"
    and "\<forall>line \<in> set pre. row_fits ext (Tokenize ext header) line"
    and "\<not> row_fits ext (Tokenize ext header) bad"
  shows "cerr_of (ReadFromFile ext fs filename t) = [row_error (int (length pre) + 1) filename]
    \<and> topic_of (ReadFromFile ext fs filename t)
        = topic_of (ReadFromFile ext (fs(filename \<mapsto> header # pre)) filename t)
    \<and> Messages (topic_of (ReadFromFile ext fs filename t))
        = map (row_message ext (Tokenize ext header)) pre
    \<and> FieldLabels (topic_of (ReadFromFile ext fs filename t))
        = normalized_labels (CSVFieldsPrefix ext) (Tokenize ext header)
    \<and> has_header (topic_of (ReadFromFile ext fs filename t))
        = triple_present (CSVFieldsPrefix ext) (Tokenize ext header)
    \<and> int (length hdr_seq) \<le> len_seqid (topic_of (ReadFromFile ext fs filename t))
    \<and> int (length hdr_stamp) \<le> len_stamp (topic_of (ReadFromFile ext fs filename t))
    \<and> int (length hdr_frid) \<le> len_frameid (topic_of (ReadFromFile ext fs filename t))
    \<and> len_fields (topic_of (ReadFromFile ext fs filename t))
        = raise_widths (normalized_labels (CSVFieldsPrefix ext) (Tokenize ext header))
            (tracked_widths ext (Tokenize ext header) pre)
    \<and> IsFaultTopic (topic_of (ReadFromFile ext fs filename t))
        = (length (FaultTopicPrefix ext) \<le> length (Name t)
           \<and> take (length (FaultTopicPrefix ext)) (Name t) = FaultTopicPrefix ext)
    \<and> IsInitialized (topic_of (ReadFromFile ext fs filename t)) = True"
proof -
  let ?t0 = "(Clear t)\<lparr>FileName := filename, Name := Name t,
                        orig_field_labels := Tokenize ext header\<rparr>"
  let ?t' = "topic_of (ReadFromFile ext fs filename t)"
  have labels: "orig_field_labels ?t0 = Tokenize ext header" by simp
  have cut: "(fs(filename \<mapsto> header # pre)) filename = Some (header # pre)" by simp
  have rows: "ReadFromFile_rows ext filename (pre @ bad # post) 0 ?t0
      = (fst (ReadFromFile_rows ext filename pre 0 ?t0),
         [row_error (0 + int (length pre) + 1) filename])"
    by (rule ReadFromFile_rows_overflow) (use assms(2,3) in simp_all)
  have msgs: "Messages (fst (ReadFromFile_rows ext filename pre 0 ?t0))
      = map (row_message ext (Tokenize ext header)) pre"
    using ReadFromFile_rows_all_fit [of pre ext ?t0 filename 0] assms(2)
    by (simp add: Clear_def)
  have widths: "len_fields (fst (ReadFromFile_rows ext filename pre 0 ?t0))
      = tracked_widths ext (Tokenize ext header) pre"
    using ReadFromFile_rows_widths [of pre ext ?t0 filename 0] assms(2)
    by (simp add: Clear_def tracked_widths_def)
  have c: "cerr_of (ReadFromFile ext fs filename t) = [row_error (int (length pre) + 1) filename]"
    using loaded_flags [where fs = fs, OF assms(1), of ext t] by (simp add: rows)
  have t: "?t' = topic_of (ReadFromFile ext (fs(filename \<mapsto> header # pre)) filename t)"
    unfolding loaded_topic [where fs = fs, OF assms(1)]
      loaded_topic [where fs = "fs(filename \<mapsto> header # pre)", OF cut]
    by (simp add: rows)
  have m: "Messages ?t' = map (row_message ext (Tokenize ext header)) pre"
    unfolding loaded_Messages [where fs = fs, OF assms(1)] by (simp add: rows msgs)
  have l: "FieldLabels ?t' = normalized_labels (CSVFieldsPrefix ext) (Tokenize ext header)"
    by (rule loaded_FieldLabels [where fs = fs, OF assms(1)])
  have h: "has_header ?t' = triple_present (CSVFieldsPrefix ext) (Tokenize ext header)"
    by (rule loaded_has_header [where fs = fs, OF assms(1)])
  have s: "int (length hdr_seq) \<le> len_seqid ?t' \<and> int (length hdr_stamp) \<le> len_stamp ?t'
      \<and> int (length hdr_frid) \<le> len_frameid ?t'"
    using loaded_scalars [where fs = fs and ext = ext and t = t, OF assms(1)]
    by (simp add: hdr_seq_def hdr_stamp_def hdr_frid_def)
  have w: "len_fields ?t'
      = raise_widths (normalized_labels (CSVFieldsPrefix ext) (Tokenize ext header))
          (tracked_widths ext (Tokenize ext header) pre)"
    unfolding loaded_len_fields [where fs = fs, OF assms(1)] l
    by (simp add: rows widths)
  have f: "IsFaultTopic ?t'
        = (length (FaultTopicPrefix ext) \<le> length (Name t)
           \<and> take (length (FaultTopicPrefix ext)) (Name t) = FaultTopicPrefix ext)"
    unfolding loaded_topic [where fs = fs, OF assms(1)]
    by (simp add: IsFaultTopic_def classify_fault_flag Clear_def)
  have i: "IsInitialized ?t' = True"
    using loaded_flags [where fs = fs, OF assms(1), of ext t] by simp
  from c t m l h s w f i show ?thesis by blast
qed

theorem row_overflow_keeps_earlier_rows_witness:
  "fs_example ''g.csv''
     = Some (''%time,field.velocity'' # [''100,2.5''] @ ''200,3,4'' # [''300,12345678901''])
   \<and> row_fits example_ext (Tokenize example_ext ''%time,field.velocity'') ''100,2.5''
   \<and> \<not> row_fits example_ext (Tokenize example_ext ''%time,field.velocity'') ''200,3,4''
   \<and> cerr_of (ReadFromFile example_ext fs_example ''g.csv'' new_Topic)
       = [''Error converting line #2 of '' @ [CHR 0x27] @ ''g.csv'' @ [CHR 0x27]
            @ ''. Skipping this topic!'']
   \<and> map msg_values (Messages (topic_of (ReadFromFile example_ext fs_example ''g.csv'' new_Topic)))
       = [[''2.5'']]
   \<and> FieldLabels (topic_of (ReadFromFile example_ext fs_example ''g.csv'' new_Topic))
       = [''velocity'']
   \<and> len_fields (topic_of (ReadFromFile example_ext fs_example ''g.csv'' new_Topic)) = [8]
   \<and> 5 \<le> len_seqid (topic_of (ReadFromFile example_ext fs_example ''g.csv'' new_Topic))
   \<and> IsFaultTopic (topic_of (ReadFromFile example_ext fs_example ''g.csv'' new_Topic)) = False
   \<and> IsInitialized (topic_of (ReadFromFile example_ext fs_example ''g.csv'' new_Topic))"
proof -
  let ?t' = "topic_of (ReadFromFile example_ext fs_example ''g.csv'' new_Topic)"
  have f: "fs_example ''g.csv''
     = Some (''%time,field.velocity'' # [''100,2.5''] @ ''200,3,4'' # [''300,12345678901''])"
    by (simp add: fs_example_def)
  have p: "\<forall>line \<in> set [''100,2.5'']. row_fits example_ext (Tokenize example_ext ''%time,field.velocity'') line"
    by (simp add: row_fits_def example_ext_def)
  have b: "\<not> row_fits example_ext (Tokenize example_ext ''%time,field.velocity'') ''200,3,4''"
    by (simp add: row_fits_def example_ext_def)
  have e: "row_error 2 ''g.csv'' = ''Error converting line #2 of '' @ [CHR 0x27] @ ''g.csv'' @ [CHR 0x27]
            @ ''. Skipping this topic!''"
    by code_simp
  have v: "msg_values (row_message example_ext (Tokenize example_ext ''%time,field.velocity'') ''100,2.5'')
      = [''2.5'']"
    by code_simp
  have n: "normalized_labels (CSVFieldsPrefix example_ext) (Tokenize example_ext ''%time,field.velocity'')
      = [''velocity'']"
    by code_simp
  have r: "raise_widths [''velocity'']
      (tracked_widths example_ext (Tokenize example_ext ''%time,field.velocity'') [''100,2.5'']) = [8]"
    by code_simp
  have x: "(length (FaultTopicPrefix example_ext) \<le> length (Name (new_Topic :: example_message Topic))
      \<and> take (length (FaultTopicPrefix example_ext)) (Name (new_Topic :: example_message Topic))
          = FaultTopicPrefix example_ext) = False"
    by code_simp
  have "cerr_of (ReadFromFile example_ext fs_example ''g.csv'' new_Topic)
          = [row_error (int (length [''100,2.5'']) + 1) ''g.csv'']
      \<and> Messages ?t'
          = map (row_message example_ext (Tokenize example_ext ''%time,field.velocity'')) [''100,2.5'']
      \<and> FieldLabels ?t'
          = normalized_labels (CSVFieldsPrefix example_ext) (Tokenize example_ext ''%time,field.velocity'')
      \<and> int (length hdr_seq) \<le> len_seqid ?t'
      \<and> len_fields ?t'
          = raise_widths (normalized_labels (CSVFieldsPrefix example_ext)
                (Tokenize example_ext ''%time,field.velocity''))
              (tracked_widths example_ext (Tokenize example_ext ''%time,field.velocity'') [''100,2.5''])
      \<and> IsFaultTopic ?t'
          = (length (FaultTopicPrefix example_ext) \<le> length (Name (new_Topic :: example_message Topic))
             \<and> take (length (FaultTopicPrefix example_ext)) (Name (new_Topic :: example_message Topic))
                 = FaultTopicPrefix example_ext)
      \<and> IsInitialized ?t' = True"
    using row_overflow_keeps_earlier_rows [where fs = fs_example, OF f p b, of new_Topic]
    by blast
  moreover have "len_fields ?t' = [8]" and "FieldLabels ?t' = [''velocity'']"
    by code_simp+
  ultimately show ?thesis
    using f p b by (simp add: e v n r x hdr_seq_def)
qed

text \<open>
  C4, amended. After a load that got past the header line, each of the three scalar
  widths is at least the length of its label (\<^verbatim>\<open>SeqID\<close>, \<^verbatim>\<open>Time Stamp\<close>, \<^verbatim>\<open>Frame\<close>), and
  for every index \<open>i\<close> of \<open>FieldLabels\<close> that has a tracked width, that is
  \<open>i < len_fields.size()\<close>, the width \<open>len_fields[i]\<close> is at least the length of
  \<open>FieldLabels[i]\<close>.
\<close>

theorem tracked_widths_cover_their_labels:
  assumes "fs filename = Some (header # rows)"
  shows "int (length hdr_seq) \<le> len_seqid (topic_of (ReadFromFile ext fs filename t))
    \<and> int (length hdr_stamp) \<le> len_stamp (topic_of (ReadFromFile ext fs filename t))
    \<and> int (length hdr_frid) \<le> len_frameid (topic_of (ReadFromFile ext fs filename t))
    \<and> (\<forall>i < length (FieldLabels (topic_of (ReadFromFile ext fs filename t))).
          i < length (len_fields (topic_of (ReadFromFile ext fs filename t))) \<longrightarrow>
          int (length (FieldLabels (topic_of (ReadFromFile ext fs filename t)) ! i))
            \<le> len_fields (topic_of (ReadFromFile ext fs filename t)) ! i)"
proof -
  have "\<forall>i < length (FieldLabels (topic_of (ReadFromFile ext fs filename t))).
          i < length (len_fields (topic_of (ReadFromFile ext fs filename t))) \<longrightarrow>
          int (length (FieldLabels (topic_of (ReadFromFile ext fs filename t)) ! i))
            \<le> len_fields (topic_of (ReadFromFile ext fs filename t)) ! i"
    unfolding loaded_len_fields [where fs = fs, OF assms]
    by (simp add: nth_raise_widths)
  then show ?thesis
    using loaded_scalars [where fs = fs and ext = ext and t = t, OF assms]
    by (simp add: hdr_seq_def hdr_stamp_def hdr_frid_def)
qed

theorem tracked_widths_cover_their_labels_witness:
  "fs_example ''a.csv''
     = Some [''%time,field.header.seq,field.header.stamp,field.header.frame_id,field.x'',
             ''100,1,500,odom,3.14'']
   \<and> len_fields (topic_of (ReadFromFile example_ext fs_example ''a.csv'' new_Topic)) = [4]
   \<and> FieldLabels (topic_of (ReadFromFile example_ext fs_example ''a.csv'' new_Topic)) = [''x'']
   \<and> (0 < length (FieldLabels (topic_of (ReadFromFile example_ext fs_example ''a.csv'' new_Topic)))
        \<and> 0 < length (len_fields (topic_of (ReadFromFile example_ext fs_example ''a.csv'' new_Topic)))
        \<and> int (length (FieldLabels (topic_of (ReadFromFile example_ext fs_example ''a.csv'' new_Topic)) ! 0))
            \<le> len_fields (topic_of (ReadFromFile example_ext fs_example ''a.csv'' new_Topic)) ! 0)
   \<and> 5 \<le> len_seqid (topic_of (ReadFromFile example_ext fs_example ''a.csv'' new_Topic))"
proof -
  have f: "fs_example ''a.csv''
     = Some [''%time,field.header.seq,field.header.stamp,field.header.frame_id,field.x'',
             ''100,1,500,odom,3.14'']"
    by (simp add: fs_example_def)
  have l: "FieldLabels (topic_of (ReadFromFile example_ext fs_example ''a.csv'' new_Topic)) = [''x'']"
    "len_fields (topic_of (ReadFromFile example_ext fs_example ''a.csv'' new_Topic)) = [4]"
    by code_simp+
  show ?thesis
    using f tracked_widths_cover_their_labels [where fs = fs_example, OF f, of example_ext new_Topic]
    by (simp add: l hdr_seq_def)
qed

text \<open>
  C4 as stated fails for a file that has only a header line: after loading \<^verbatim>\<open>b.csv\<close>
  the index 0 of \<open>FieldLabels\<close> has no tracked width at all, so there is no
  \<open>len_fields[0]\<close> to compare with the length of the label.
\<close>

theorem header_only_file_label_without_width:
  "\<not> every_label_has_width (topic_of (ReadFromFile example_ext fs_example ''b.csv'' new_Topic))"
  by code_simp

text \<open>
  C5. The second data row of \<^verbatim>\<open>d.csv\<close> has three tokens under a
  header of two columns. \<^verbatim>\<open>ReadFromFile\<close> writes the error line for row 2 and returns
  true, where the claim requires a status that signals the failure; for the file that
  does not exist and for the empty file it returns false.
\<close>

theorem row_overflow_returns_true:
  "status_of (ReadFromFile example_ext fs_example ''d.csv'' new_Topic) = True
   \<and> cerr_of (ReadFromFile example_ext fs_example ''d.csv'' new_Topic) = [row_error 2 ''d.csv'']
   \<and> status_of (ReadFromFile example_ext fs_example ''missing.csv'' new_Topic) = False
   \<and> status_of (ReadFromFile example_ext fs_example ''e.csv'' new_Topic) = False"
  by code_simp

text \<open>
  C6. \<^verbatim>\<open>c.csv\<close> has the columns \<^verbatim>\<open>%time\<close> and \<^verbatim>\<open>field.x\<close> and two data rows; the loaded
  topic has no header triple. \<^verbatim>\<open>PrintHeader\<close> with the separator \<^verbatim>\<open> | \<close> writes a line
  of 40 characters and returns 69: the sum of line 217 counts \<open>len_seqid\<close>, \<open>len_stamp\<close>
  and \<open>len_frameid\<close> (5, 10 and 5) and line 220 counts six separators besides those of
  the fields, while the line is written without the three columns of the triple and
  without their three separators.
\<close>

theorem PrintHeader_returns_more_than_it_prints:
  "PrintHeader example_ext (topic_of (ReadFromFile example_ext fs_example ''c.csv'' new_Topic)) '' | ''
     = Inr (69, ['' | Index |     Date/Time Stamp |    x | ''])
   \<and> length '' | Index |     Date/Time Stamp |    x | '' = 40
   \<and> has_header (topic_of (ReadFromFile example_ext fs_example ''c.csv'' new_Topic)) = False
   \<and> length (Messages (topic_of (ReadFromFile example_ext fs_example ''c.csv'' new_Topic))) = 2"
  by code_simp

text \<open>
  C7, amended. \<^verbatim>\<open>Print\<close> returns 0 and writes nothing when \<open>n_start\<close> is negative.
  Otherwise it first writes what \<^verbatim>\<open>PrintHeader\<close> writes and a rule of as many dashes as
  \<^verbatim>\<open>PrintHeader\<close> returned. For a topic without messages that is no header and the empty
  rule, and \<^verbatim>\<open>Print\<close> returns 0. For a topic with a message in which every label has a
  tracked width (and the lengths do not add up to a negative number) it is the header line
  \<open>header_text\<close> and a rule of \<open>header_total\<close> dashes, followed by the lines of
  consecutive messages from \<open>n_start\<close> on, whose number \<^verbatim>\<open>Print\<close> returns. As long as
  \<open>n_start\<close> plus the count is in the range of \<^verbatim>\<open>int\<close> these are the messages whose
  index is in \<open>selected_indices\<close>; beyond the range the addition is undefined behaviour,
  and which messages follow the rule is not determined.
\<close>

theorem Print_emits_selected_records:
  "(n_start < 0 \<longrightarrow> Print ext t n_start n_messages sep = Inr (0, []))
   \<and> (0 \<le> n_start \<and> Messages t = [] \<longrightarrow>
        PrintHeader ext t sep = Inr (0, [])
        \<and> Print ext t n_start n_messages sep = Inr (0, [[]]))
   \<and> (0 \<le> n_start \<and> Messages t \<noteq> [] \<and> length (FieldLabels t) \<le> length (len_fields t)
        \<and> 0 \<le> header_total ext t sep \<longrightarrow>
        PrintHeader ext t sep = Inr (header_total ext t sep, [header_text ext t sep])
        \<and> (\<exists>k < int (length (Messages t)).
              Print ext t n_start n_messages sep
                = Inr (int (length [n_start .. k]),
                       [header_text ext t sep,
                        replicate (nat (header_total ext t sep)) CHR ''-'']
                         @ map (Print_line ext t sep) [n_start .. k]))
        \<and> (n_start + (if n_messages < 0 then int (length (Messages t)) else n_messages) < 2 ^ 31
             \<longrightarrow> Print ext t n_start n_messages sep
                   = Inr (int (length (selected_indices t n_start n_messages)),
                          [header_text ext t sep,
                           replicate (nat (header_total ext t sep)) CHR ''-'']
                            @ map (Print_line ext t sep) (selected_indices t n_start n_messages))))"
proof (intro conjI impI)
  assume "n_start < 0"
  then show "Print ext t n_start n_messages sep = Inr (0, [])"
    by (simp add: Print_def)
next
  assume a: "0 \<le> n_start \<and> Messages t = []"
  then show "PrintHeader ext t sep = Inr (0, [])"
    by (simp add: PrintHeader_no_messages)
next
  assume a: "0 \<le> n_start \<and> Messages t = []"
  then have h: "PrintHeader ext t sep = Inr (0, [])"
    by (simp add: PrintHeader_no_messages)
  let ?b = "signed_sum ext n_start
              (if n_messages < 0 then int (length (Messages t)) else n_messages)"
  from a have "min ?b (int (length (Messages t))) - 1 < n_start" by (simp add: min_def)
  then have none: "[n_start .. min ?b (int (length (Messages t))) - 1] = []"
    by (rule upto_empty)
  from a have "Print ext t n_start n_messages sep
      = Inr (int (length [n_start .. min ?b (int (length (Messages t))) - 1]),
             [] @ [replicate (nat 0) CHR ''-'']
               @ map (Print_line ext t sep) [n_start .. min ?b (int (length (Messages t))) - 1])"
    by (intro Print_eq [OF _ h]) simp_all
  then show "Print ext t n_start n_messages sep = Inr (0, [[]])"
    unfolding none by simp
next
  assume a: "0 \<le> n_start \<and> Messages t \<noteq> [] \<and> length (FieldLabels t) \<le> length (len_fields t)
        \<and> 0 \<le> header_total ext t sep"
  then show "PrintHeader ext t sep = Inr (header_total ext t sep, [header_text ext t sep])"
    by (simp add: PrintHeader_eq)
next
  assume a: "0 \<le> n_start \<and> Messages t \<noteq> [] \<and> length (FieldLabels t) \<le> length (len_fields t)
        \<and> 0 \<le> header_total ext t sep"
  let ?n = "if n_messages < 0 then int (length (Messages t)) else n_messages"
  let ?k = "min (signed_sum ext n_start ?n) (int (length (Messages t))) - 1"
  from a have h: "PrintHeader ext t sep = Inr (header_total ext t sep, [header_text ext t sep])"
    by (simp add: PrintHeader_eq)
  from a have "Print ext t n_start n_messages sep
      = Inr (int (length [n_start .. ?k]),
             [header_text ext t sep, replicate (nat (header_total ext t sep)) CHR ''-'']
               @ map (Print_line ext t sep) [n_start .. ?k])"
    by (simp only: Print_eq [OF _ h]) simp
  moreover have "?k < int (length (Messages t))" by simp
  ultimately show "\<exists>k < int (length (Messages t)).
      Print ext t n_start n_messages sep
        = Inr (int (length [n_start .. k]),
               [header_text ext t sep, replicate (nat (header_total ext t sep)) CHR ''-'']
                 @ map (Print_line ext t sep) [n_start .. k])"
    by blast
next
  assume a: "0 \<le> n_start \<and> Messages t \<noteq> [] \<and> length (FieldLabels t) \<le> length (len_fields t)
        \<and> 0 \<le> header_total ext t sep"
    and r: "n_start + (if n_messages < 0 then int (length (Messages t)) else n_messages) < 2 ^ 31"
  let ?n = "if n_messages < 0 then int (length (Messages t)) else n_messages"
  from a have h: "PrintHeader ext t sep = Inr (header_total ext t sep, [header_text ext t sep])"
    by (simp add: PrintHeader_eq)
  have "0 \<le> ?n" by simp
  with a r have exact: "signed_sum ext n_start ?n = n_start + ?n"
    by (intro signed_sum_exact) simp_all
  from a show "Print ext t n_start n_messages sep
      = Inr (int (length (selected_indices t n_start n_messages)),
             [header_text ext t sep, replicate (nat (header_total ext t sep)) CHR ''-'']
               @ map (Print_line ext t sep) (selected_indices t n_start n_messages))"
    by (simp only: Print_eq [OF _ h] exact selected_indices_def) simp
qed

theorem Print_emits_selected_records_witness:
  "Print example_ext (topic_of (ReadFromFile example_ext fs_example ''c.csv'' new_Topic))
       0 1 '' | ''
     = Inr (1, ['' | Index |     Date/Time Stamp |    x | '',
                replicate 69 CHR ''-'',
                '' |     0 | 1537213568123456789 | 3.14 | ''])
   \<and> PrintHeader example_ext (topic_of (ReadFromFile example_ext fs_example ''c.csv'' new_Topic))
       '' | ''
     = Inr (69, ['' | Index |     Date/Time Stamp |    x | ''])
   \<and> Print example_ext (topic_of (ReadFromFile example_ext fs_example ''c.csv'' new_Topic))
       (- 1) 5 '' | '' = Inr (0, [])
   \<and> Print example_ext (new_Topic :: example_message Topic) 0 (- 1) '' | '' = Inr (0, [[]])"
proof -
  let ?t = "topic_of (ReadFromFile example_ext fs_example ''c.csv'' new_Topic)"
  have m: "length (Messages ?t) = 2" by code_simp
  then have ne: "Messages ?t \<noteq> []" by auto
  have c: "length (FieldLabels ?t) \<le> length (len_fields ?t)" by code_simp
  have ht: "header_text example_ext ?t '' | '' = '' | Index |     Date/Time Stamp |    x | ''"
    by code_simp
  have hn: "header_total example_ext ?t '' | '' = 69"
    by code_simp
  have s: "selected_indices ?t 0 1 = [0]"
    by (simp add: selected_indices_def m upto_rec1)
  have l: "Print_line example_ext ?t '' | '' 0 = '' |     0 | 1537213568123456789 | 3.14 | ''"
    by code_simp
  have e: "Messages (new_Topic :: example_message Topic) = []"
    by (simp add: new_Topic_def)
  have h: "PrintHeader example_ext ?t '' | ''
      = Inr (69, ['' | Index |     Date/Time Stamp |    x | ''])"
    by code_simp
  from Print_emits_selected_records [of "- 1" example_ext ?t 5 "'' | ''"]
  have neg: "Print example_ext ?t (- 1) 5 '' | '' = Inr (0, [])" by simp
  from Print_emits_selected_records [of 0 example_ext "new_Topic :: example_message Topic" "- 1" "'' | ''"] e
  have emp: "Print example_ext (new_Topic :: example_message Topic) 0 (- 1) '' | '' = Inr (0, [[]])"
    by blast
  from Print_emits_selected_records [of 0 example_ext ?t 1 "'' | ''"] ne c hn
  have "PrintHeader example_ext ?t '' | ''
          = Inr (header_total example_ext ?t '' | '', [header_text example_ext ?t '' | ''])
      \<and> Print example_ext ?t 0 1 '' | ''
          = Inr (int (length (selected_indices ?t 0 1)),
                 [header_text example_ext ?t '' | '',
                  replicate (nat (header_total example_ext ?t '' | '')) CHR ''-'']
                   @ map (Print_line example_ext ?t '' | '') (selected_indices ?t 0 1))"
    by simp
  with neg emp h show ?thesis by (simp add: s l ht hn)
qed

text \<open>
  C7 as stated fails for a topic without messages. After loading \<^verbatim>\<open>b.csv\<close>, which has
  a header line only, \<^verbatim>\<open>Print(0, -1, " | ")\<close> writes one empty line, the rule of length
  0, and no header, although the topic has the label \<^verbatim>\<open>x\<close>.
\<close>

theorem Print_without_records_emits_no_header:
  "Print example_ext (topic_of (ReadFromFile example_ext fs_example ''b.csv'' new_Topic))
       0 (- 1) '' | '' = Inr (0, [[]])
   \<and> FieldLabels (topic_of (ReadFromFile example_ext fs_example ''b.csv'' new_Topic)) = [''x'']"
  by code_simp

text \<open>
  C8. After a load that got past the header line, the topic keeps the name it had and
  \<^verbatim>\<open>IsFaultTopic()\<close> is true exactly when the name is at least as long as the fault-topic
  prefix and starts with it; in particular it is false for a shorter name. The value does
  not depend on the flag the topic had before the load.
\<close>

theorem fault_flag_recomputed_from_name:
  assumes "fs filename = Some (header # rows)"
  shows "Name (topic_of (ReadFromFile ext fs filename t)) = Name t
    \<and> IsFaultTopic (topic_of (ReadFromFile ext fs filename t))
        = (length (FaultTopicPrefix ext) \<le> length (Name t)
           \<and> take (length (FaultTopicPrefix ext)) (Name t) = FaultTopicPrefix ext)"
  by (simp add: topic_of_def ReadFromFile_Some [where fs = fs, OF assms]
        IsFaultTopic_def classify_fault_flag Clear_def)

theorem fault_flag_recomputed_from_name_witness:
  "fs_example ''a.csv''
     = Some [''%time,field.header.seq,field.header.stamp,field.header.frame_id,field.x'',
             ''100,1,500,odom,3.14'']
   \<and> IsFaultTopic (topic_of (ReadFromFile example_ext fs_example ''a.csv''
         (new_Topic\<lparr>Name := ''failure_status-engines''\<rparr>))) = True
   \<and> IsFaultTopic (topic_of (ReadFromFile example_ext fs_example ''a.csv''
         (new_Topic\<lparr>Name := ''failure'', is_fault_topic := True\<rparr>))) = False"
proof -
  have f: "fs_example ''a.csv''
     = Some [''%time,field.header.seq,field.header.stamp,field.header.frame_id,field.x'',
             ''100,1,500,odom,3.14'']"
    by (simp add: fs_example_def)
  show ?thesis
    using f
      fault_flag_recomputed_from_name [where fs = fs_example and ext = example_ext, OF f,
        of "new_Topic\<lparr>Name := ''failure_status-engines''\<rparr>"]
      fault_flag_recomputed_from_name [where fs = fs_example and ext = example_ext, OF f,
        of "new_Topic\<lparr>Name := ''failure'', is_fault_topic := True\<rparr>"]
    by (simp add: example_ext_def)
qed

text \<open>
  C9. When the file cannot be opened, or has no header line, \<^verbatim>\<open>ReadFromFile\<close> returns
  false, \<^verbatim>\<open>IsInitialized()\<close> is false and the topic holds no message.
\<close>

theorem failed_load_leaves_topic_uninitialized:
  assumes "fs filename = None \<or> fs filename = Some []"
  shows "status_of (ReadFromFile ext fs filename t) = False
    \<and> IsInitialized (topic_of (ReadFromFile ext fs filename t)) = False
    \<and> Messages (topic_of (ReadFromFile ext fs filename t)) = []"
  using assms
  by (auto simp add: status_of_def topic_of_def ReadFromFile_None [where fs = fs]
        ReadFromFile_empty [where fs = fs] IsInitialized_def Clear_def)

theorem failed_load_leaves_topic_uninitialized_witness:
  "(fs_example ''missing.csv'' = None \<or> fs_example ''missing.csv'' = Some [])
   \<and> (fs_example ''e.csv'' = None \<or> fs_example ''e.csv'' = Some [])
   \<and> status_of (ReadFromFile example_ext fs_example ''missing.csv'' new_Topic) = False
   \<and> IsInitialized (topic_of (ReadFromFile example_ext fs_example ''missing.csv'' new_Topic)) = False
   \<and> status_of (ReadFromFile example_ext fs_example ''e.csv'' new_Topic) = False
   \<and> Messages (topic_of (ReadFromFile example_ext fs_example ''e.csv'' new_Topic)) = []"
proof -
  have m: "fs_example ''missing.csv'' = None \<or> fs_example ''missing.csv'' = Some []"
    by (simp add: fs_example_def)
  have e: "fs_example ''e.csv'' = None \<or> fs_example ''e.csv'' = Some []"
    by (simp add: fs_example_def)
  show ?thesis
    using m e
      failed_load_leaves_topic_uninitialized [where fs = fs_example, OF m, of example_ext new_Topic]
      failed_load_leaves_topic_uninitialized [where fs = fs_example, OF e, of example_ext new_Topic]
    by simp
qed

text \<open>
  C10. Take a topic that a load left with at least one message, the record builder
  reporting one width per generic field. \<^verbatim>\<open>Print\<close> with a start index that is not negative
  and selects no message (it is at or beyond the number of messages, or the count is 0)
  returns 0 and has written two lines: the header line and the rule of dashes.
\<close>

theorem Print_selecting_nothing_prints_header_and_rule:
  assumes "fs filename = Some (header # rows)"
    and "one_width_per_field ext (Tokenize ext header)"
    and "Messages (topic_of (ReadFromFile ext fs filename t)) \<noteq> []"
    and "0 \<le> n_start"
    and "int (length (Messages (topic_of (ReadFromFile ext fs filename t)))) \<le> n_start
         \<or> n_messages = 0"
  shows "Print ext (topic_of (ReadFromFile ext fs filename t)) n_start n_messages sep
     = Inr (0, [header_text ext (topic_of (ReadFromFile ext fs filename t)) sep,
                replicate (nat (header_total ext (topic_of (ReadFromFile ext fs filename t)) sep))
                  CHR ''-''])"
proof -
  let ?t = "topic_of (ReadFromFile ext fs filename t)"
  let ?n = "if n_messages < 0 then int (length (Messages ?t)) else n_messages"
  have "min (signed_sum ext n_start ?n) (int (length (Messages ?t))) \<le> n_start"
  proof (cases "n_messages = 0")
    case True
    then show ?thesis by (simp add: signed_sum_zero)
  next
    case False
    with assms(5) show ?thesis by simp
  qed
  then have none: "[n_start .. min (signed_sum ext n_start ?n) (int (length (Messages ?t))) - 1] = []"
    by simp
  have loop: "Print_loop ext ?t sep (signed_sum ext n_start ?n) n_start 0 out = (0, out)" for out
    unfolding Print_loop_eq none by simp
  from loaded_PrintHeader [OF assms(1-3), of sep]
  have h: "PrintHeader ext ?t sep = Inr (header_total ext ?t sep, [header_text ext ?t sep])"
    and w: "0 \<le> header_total ext ?t sep" by simp_all
  show ?thesis
    unfolding Print_unfold [OF assms(4) h w] loop by simp
qed

theorem Print_selecting_nothing_prints_header_and_rule_witness:
  "Print example_ext (topic_of (ReadFromFile example_ext fs_example ''c.csv'' new_Topic))
       2 5 '' | ''
     = Inr (0, ['' | Index |     Date/Time Stamp |    x | '', replicate 69 CHR ''-''])
   \<and> Print example_ext (topic_of (ReadFromFile example_ext fs_example ''c.csv'' new_Topic))
       0 0 '' | ''
     = Inr (0, ['' | Index |     Date/Time Stamp |    x | '', replicate 69 CHR ''-''])"
proof -
  let ?t = "topic_of (ReadFromFile example_ext fs_example ''c.csv'' new_Topic)"
  have f: "fs_example ''c.csv''
      = Some [''%time,field.x'', ''1537213568123456789,3.14'', ''1537213568223456789,2.5'']"
    by (simp add: fs_example_def)
  have m: "length (Messages ?t) = 2" by code_simp
  then have ne: "Messages ?t \<noteq> []" by auto
  have ht: "header_text example_ext ?t '' | '' = '' | Index |     Date/Time Stamp |    x | ''"
    by code_simp
  have hn: "header_total example_ext ?t '' | '' = 69"
    by code_simp
  from Print_selecting_nothing_prints_header_and_rule
         [where fs = fs_example, OF f example_one_width_per_field ne, of 2 5 "'' | ''"]
       Print_selecting_nothing_prints_header_and_rule
         [where fs = fs_example, OF f example_one_width_per_field ne, of 0 0 "'' | ''"]
       m
  show ?thesis by (simp add: ht hn)
qed

end
